theory Spec2Isabelle
  imports Main "HOL-Library.Sublist" "HOL-Library.Multiset"
begin

section \<open>Strings: the functions of Go's \<open>strings\<close> and \<open>fmt\<close> packages that tagrtol.go calls\<close>

text \<open>
  A Go string is a sequence of bytes; it is modelled as \<open>string\<close> (a list of 8-bit
  characters). \<open>strings.Contains s substr\<close> reports whether \<open>substr\<close> occurs in \<open>s\<close>.
\<close>

fun Contains :: "string \<Rightarrow> string \<Rightarrow> bool" where
  "Contains [] substr = (substr = [])"
| "Contains (c # s) substr = (prefix substr (c # s) \<or> Contains s substr)"

text \<open>
  \<open>strings.Trim s cutset\<close> removes every leading and trailing character that occurs in
  \<open>cutset\<close>. The program only calls it with the cutset \<open>"/"\<close>.
\<close>

definition Trim :: "string \<Rightarrow> string \<Rightarrow> string" where
  "Trim s cutset =
     rev (dropWhile (\<lambda>c. c \<in> set cutset) (rev (dropWhile (\<lambda>c. c \<in> set cutset) s)))"

text \<open>
  \<open>strings.Split s sep\<close> cuts \<open>s\<close> at every occurrence of a non-empty separator and
  returns the pieces between them; the result always has at least one element (the
  empty string splits into one empty piece). The program only calls it with \<open>"/"\<close>;
  the empty separator (which Go treats specially) does not occur and is not modelled.
\<close>

fun splitFrom :: "string \<Rightarrow> string \<Rightarrow> string \<Rightarrow> string list" where
  "splitFrom sep cur [] = [rev cur]"
| "splitFrom sep cur (c # s) =
     (if sep \<noteq> [] \<and> prefix sep (c # s)
      then rev cur # splitFrom sep [] (drop (length sep - 1) s)
      else splitFrom sep (c # cur) s)"

definition Split :: "string \<Rightarrow> string \<Rightarrow> string list" where
  "Split s sep = splitFrom sep [] s"

text \<open>\<open>fmt.Sprintf("%d", n)\<close>: the decimal digits of an integer, with a sign when negative.\<close>

definition digit :: "nat \<Rightarrow> char" where
  "digit n = char_of (48 + n)"

function decimal :: "nat \<Rightarrow> string" where
  "decimal n = (if n < 10 then [digit n] else decimal (n div 10) @ [digit (n mod 10)])"
  by pat_completeness auto
termination
  by (relation "measure id") auto

declare decimal.simps [simp del]

definition Sprintf_d :: "int \<Rightarrow> string" where
  "Sprintf_d n = (if n < 0 then CHR ''-'' # decimal (nat (- n)) else decimal (nat n))"

section \<open>Data model\<close>

text \<open>The \<open>Result\<close> struct of tagrtol.go (the spec's Verdict).\<close>

record Result =
  Type :: string
  Status :: string
  URL :: string
  SourcePage :: string

text \<open>
  The parts of the standard library's values that the program reads: a parsed URL
  (\<open>*url.URL\<close>), an HTTP request with its header map, an HTTP response, and an HTML token
  with its attributes.

  A response has its status code, its body and the URL of the request that produced it
  (\<open>resp.Request.URL\<close>). The body is a stream: \<open>Body\<close> is the bytes it delivers before it
  ends, and \<open>BodyError\<close> tells whether it ends with a read error (a timeout or a reset
  while the body is in transit) rather than at the end of the input.
\<close>

record url_URL =
  Scheme :: string
  Host :: string
  Path :: string

record Request =
  Method :: string
  RequestURL :: string
  Header :: "string \<rightharpoonup> string"

record Response =
  StatusCode :: int
  Body :: string
  BodyError :: bool
  Request_URL :: url_URL

record Attribute =
  Key :: string
  Val :: string

record Token =
  Data :: string
  Attr :: "Attribute list"

text \<open>\<open>u.IsAbs()\<close> is \<open>u.Scheme != ""\<close>; \<open>req.Header.Set(k, v)\<close> replaces the value of \<open>k\<close>.\<close>

definition IsAbs :: "url_URL \<Rightarrow> bool" where
  "IsAbs u = (Scheme u \<noteq> [])"

definition Header_Set :: "Request \<Rightarrow> string \<Rightarrow> string \<Rightarrow> Request" where
  "Header_Set req k v = req\<lparr>Header := (Header req)(k \<mapsto> v)\<rparr>"

text \<open>
  Everything outside the program is a parameter of the model, collected in one
  environment that is fixed for a run:
  \<^item> the pure library functions \<open>url.Parse\<close> (\<open>None\<close> when it returns an error, and then
    its \<open>*URL\<close> is nil), \<open>http.NewRequest\<close> (\<open>None\<close> when it returns an error, and then
    its \<open>*Request\<close> is nil), \<open>URL.ResolveReference\<close>, \<open>URL.String\<close>, and the sequence of
    tokens that \<open>html.Tokenizer\<close> yields for a body before its first \<open>ErrorToken\<close>;
  \<^item> the upstream: what \<open>httpClient.Get\<close> and \<open>httpClient.Do\<close> answer (\<open>None\<close> when they
    return an error: refused connection, timeout, DNS failure, unsupported scheme);
  \<^item> the configuration: the global \<open>githubToken\<close> read from the process environment.
\<close>

record Env =
  url_Parse :: "string \<Rightarrow> url_URL option"
  http_NewRequest :: "string \<Rightarrow> string \<Rightarrow> Request option"
  url_ResolveReference :: "url_URL \<Rightarrow> url_URL \<Rightarrow> url_URL"
  url_String :: "url_URL \<Rightarrow> string"
  html_Tokens :: "string \<Rightarrow> Token list"
  client_Get :: "string \<Rightarrow> Response option"
  client_Do :: "Request \<Rightarrow> Response option"
  githubToken :: string

text \<open>
  A probe returns the outbound calls it made on \<open>httpClient\<close>, in order, and either the
  \<open>Result\<close> it returned or the run-time panic that ended it. The only panic the code can
  raise is the dereference of a nil pointer that a discarded error left behind.
\<close>

datatype Call = Get string | Do Request

datatype panic = NilPointerDereference

type_synonym probe = "Call list \<times> (panic + Result)"

section \<open>Link extraction\<close>

text \<open>
  \<open>extractLinks\<close>: the inner loop over the attributes of one token, the outer loop over
  the tokens, both appending to \<open>links\<close>, and the function itself, which returns nil (no
  links) when \<open>httpClient.Get\<close> returns an error. The loop over the tokens stops at the
  first \<open>ErrorToken\<close> and never asks the tokenizer why it stopped: the end of the input
  and a read error in the middle of the page both end the loop with the links found so
  far, so \<open>BodyError\<close> is not read.
\<close>

fun attrLoop :: "Env \<Rightarrow> Response \<Rightarrow> Attribute list \<Rightarrow> string list \<Rightarrow> string list" where
  "attrLoop env resp [] links = links"
| "attrLoop env resp (attr # attrs) links =
     attrLoop env resp attrs
       (if Key attr = ''href''
        then (case url_Parse env (Val attr) of
                None \<Rightarrow> links
              | Some u \<Rightarrow>
                  links @ [url_String env
                    (if \<not> IsAbs u then url_ResolveReference env (Request_URL resp) u else u)])
        else links)"

fun tokenLoop :: "Env \<Rightarrow> Response \<Rightarrow> Token list \<Rightarrow> string list \<Rightarrow> string list" where
  "tokenLoop env resp [] links = links"
| "tokenLoop env resp (token # tokens) links =
     tokenLoop env resp tokens
       (if Data token = ''a'' then attrLoop env resp (Attr token) links else links)"

definition extractLinks :: "Env \<Rightarrow> string \<Rightarrow> string list" where
  "extractLinks env site =
     (case client_Get env site of
        None \<Rightarrow> []
      | Some resp \<Rightarrow> tokenLoop env resp (html_Tokens env (Body resp)) [])"

section \<open>The probers\<close>

text \<open>
  \<open>readBody\<close> copies the body into a string and discards the error of \<open>io.Copy\<close>: it
  returns the bytes that were read, whether or not the read ended with an error.
\<close>

definition readBody :: "Response \<Rightarrow> string" where
  "readBody resp = Body resp"

definition githubAPIRequest :: "Env \<Rightarrow> string \<Rightarrow> string \<Rightarrow> string \<Rightarrow> probe" where
  "githubAPIRequest env entityType api link =
     (case http_NewRequest env ''GET'' api of
        None \<Rightarrow> ([], Inl NilPointerDereference)
      | Some req0 \<Rightarrow>
          let req1 = Header_Set req0 ''User-Agent'' ''Takeover-Scanner'';
              req = (if githubToken env \<noteq> []
                     then Header_Set req1 ''Authorization'' (''token '' @ githubToken env)
                     else req1)
          in (case client_Do env req of
                None \<Rightarrow>
                  ([Do req], Inr \<lparr>Type = entityType, Status = ''connection_error'',
                                 URL = link, SourcePage = []\<rparr>)
              | Some resp \<Rightarrow>
                  ([Do req], Inr
                    (if StatusCode resp = 404 then
                       \<lparr>Type = entityType, Status = ''not_found'', URL = link, SourcePage = []\<rparr>
                     else if StatusCode resp = 200 then
                       \<lparr>Type = entityType, Status = ''exists'', URL = link, SourcePage = []\<rparr>
                     else if StatusCode resp = 403 \<or> StatusCode resp = 429 then
                       \<lparr>Type = entityType, Status = ''rate_limited'', URL = link, SourcePage = []\<rparr>
                     else
                       \<lparr>Type = entityType, Status = ''error_'' @ Sprintf_d (StatusCode resp),
                        URL = link, SourcePage = []\<rparr>))))"

text \<open>
  \<open>checkGitHub\<close> discards the error of \<open>url.Parse\<close> and reads \<open>parsed.Path\<close> at once, before
  any test on the link: on an unparseable link \<open>parsed\<close> is nil and the read panics.
  \<open>parts\<close> is never empty, so \<open>parts[0]\<close> is always in range; \<open>parts[1]\<close> and
  \<open>parts[len(parts)-1]\<close> are read under \<open>len(parts) >= 2\<close>.
\<close>

definition checkGitHub :: "Env \<Rightarrow> string \<Rightarrow> probe" where
  "checkGitHub env link =
     (case url_Parse env link of
        None \<Rightarrow> ([], Inl NilPointerDereference)
      | Some parsed \<Rightarrow>
          let parts = Split (Trim (Path parsed) ''/'') ''/'' in
          if Contains link ''github.io'' then
            (case client_Get env link of
               None \<Rightarrow>
                 ([Get link], Inr \<lparr>Type = ''github_pages'', Status = ''connection_error'',
                                   URL = link, SourcePage = []\<rparr>)
             | Some resp \<Rightarrow>
                 ([Get link], Inr
                   (if Contains (readBody resp) ''There isn't a GitHub Pages site here.'' then
                      \<lparr>Type = ''github_pages'', Status = ''possible_takeover'',
                       URL = link, SourcePage = []\<rparr>
                    else
                      \<lparr>Type = ''github_pages'', Status = ''ok'', URL = link, SourcePage = []\<rparr>)))
          else if Contains link ''gist.github.com'' \<and> length parts \<ge> 2 then
            githubAPIRequest env ''gist'' (''https://api.github.com/gists/'' @ last parts) link
          else if length parts \<ge> 2 then
            githubAPIRequest env ''repo''
              (''https://api.github.com/repos/'' @ parts ! 0 @ ''/'' @ parts ! 1) link
          else if length parts = 1 \<and> parts ! 0 \<noteq> [] then
            githubAPIRequest env ''user'' (''https://api.github.com/users/'' @ parts ! 0) link
          else
            ([], Inr \<lparr>Type = ''github'', Status = ''invalid_url'', URL = link, SourcePage = []\<rparr>))"

text \<open>
  The seven probers that fetch the link itself share one shape in the source: GET, on
  error \<open>connection_error\<close>, otherwise a test on the response. \<open>getProbe\<close> is that shape,
  with the service name and the test of each prober as arguments.
\<close>

definition getProbe :: "Env \<Rightarrow> string \<Rightarrow> (Response \<Rightarrow> bool) \<Rightarrow> string \<Rightarrow> probe" where
  "getProbe env service signature link =
     (case client_Get env link of
        None \<Rightarrow>
          ([Get link], Inr \<lparr>Type = service, Status = ''connection_error'',
                            URL = link, SourcePage = []\<rparr>)
      | Some resp \<Rightarrow>
          ([Get link], Inr
            (if signature resp then
               \<lparr>Type = service, Status = ''possible_takeover'', URL = link, SourcePage = []\<rparr>
             else
               \<lparr>Type = service, Status = ''ok'', URL = link, SourcePage = []\<rparr>)))"

definition checkS3 :: "Env \<Rightarrow> string \<Rightarrow> probe" where
  "checkS3 env link = getProbe env ''s3'' (\<lambda>resp. Contains (readBody resp) ''NoSuchBucket'') link"

definition checkHeroku :: "Env \<Rightarrow> string \<Rightarrow> probe" where
  "checkHeroku env link =
     getProbe env ''heroku'' (\<lambda>resp. Contains (readBody resp) ''no such app'') link"

definition checkVercel :: "Env \<Rightarrow> string \<Rightarrow> probe" where
  "checkVercel env link =
     getProbe env ''vercel''
       (\<lambda>resp. Contains (readBody resp) ''Vercel'' \<and> Contains (readBody resp) ''404'') link"

definition checkNetlify :: "Env \<Rightarrow> string \<Rightarrow> probe" where
  "checkNetlify env link =
     getProbe env ''netlify''
       (\<lambda>resp. Contains (readBody resp) ''Not Found'' \<and> Contains (readBody resp) ''netlify'') link"

text \<open>The Wix signature holds a right single quotation mark, three bytes in UTF-8.\<close>

definition checkWix :: "Env \<Rightarrow> string \<Rightarrow> probe" where
  "checkWix env link =
     getProbe env ''wix''
       (\<lambda>resp. Contains (readBody resp)
                 (''domain isn'' @ [char_of (0xE2::nat), char_of (0x80::nat), char_of (0x99::nat)]
                    @ ''t connected to a website'')
             \<or> Contains (readBody resp) ''Looks like this domain'') link"

definition checkTumblr :: "Env \<Rightarrow> string \<Rightarrow> probe" where
  "checkTumblr env link =
     getProbe env ''tumblr''
       (\<lambda>resp. Contains (readBody resp) ''There's nothing here'' \<or> StatusCode resp = 404) link"

definition checkShopify :: "Env \<Rightarrow> string \<Rightarrow> probe" where
  "checkShopify env link =
     getProbe env ''shopify''
       (\<lambda>resp. Contains (readBody resp) ''store is unavailable''
             \<or> Contains (readBody resp) ''This store is unavailable'') link"

definition checkChromeExtension :: "Env \<Rightarrow> string \<Rightarrow> probe" where
  "checkChromeExtension env link =
     (case url_Parse env link of
        None \<Rightarrow>
          ([], Inr \<lparr>Type = ''chrome_ext'', Status = ''invalid_url'', URL = link, SourcePage = []\<rparr>)
      | Some u \<Rightarrow>
          let parts = Split (Trim (Path u) ''/'') ''/'' in
          if length parts < 2 then
            ([], Inr \<lparr>Type = ''chrome_ext'', Status = ''invalid_url'',
                      URL = link, SourcePage = []\<rparr>)
          else
            let extID = last parts;
                checkURL = ''https://chrome.google.com/webstore/detail/'' @ extID
            in (case client_Get env checkURL of
                  None \<Rightarrow>
                    ([Get checkURL], Inr \<lparr>Type = ''chrome_ext'', Status = ''connection_error'',
                                          URL = link, SourcePage = []\<rparr>)
                | Some resp \<Rightarrow>
                    ([Get checkURL], Inr
                      (if Contains (readBody resp) ''Item not found'' \<or> Contains (readBody resp) ''404''
                       then \<lparr>Type = ''chrome_ext'', Status = ''not_found'',
                             URL = link, SourcePage = []\<rparr>
                       else \<lparr>Type = ''chrome_ext'', Status = ''exists'',
                             URL = link, SourcePage = []\<rparr>))))"

section \<open>The dispatcher\<close>

definition detectService :: "Env \<Rightarrow> string \<Rightarrow> probe" where
  "detectService env link =
     (if Contains link ''github.com'' \<or> Contains link ''github.io''
         \<or> Contains link ''gist.github.com'' then checkGitHub env link
      else if Contains link ''.s3.amazonaws.com'' then checkS3 env link
      else if Contains link ''herokuapp.com'' then checkHeroku env link
      else if Contains link ''.vercel.app'' then checkVercel env link
      else if Contains link ''.netlify.app'' then checkNetlify env link
      else if Contains link ''chrome.google.com/webstore/detail/''
        then checkChromeExtension env link
      else if Contains link ''.wixsite.com'' then checkWix env link
      else if Contains link ''.tumblr.com'' then checkTumblr env link
      else if Contains link ''.myshopify.com'' then checkShopify env link
      else ([], Inr \<lparr>Type = ''unknown'', Status = ''skipped'', URL = link, SourcePage = []\<rparr>))"

section \<open>The worker and the scheduler\<close>

text \<open>
  One iteration of the worker's loop over the links of a site: the link is probed, the
  result is stamped with the site, and it is sent on the results channel unless its type
  is \<open>unknown\<close>. \<open>probeLink\<close> returns what the iteration sends (nothing or one result),
  or the panic that ended the probe; console output and the pause after each link are
  left out.
\<close>

definition probeLink :: "Env \<Rightarrow> string \<Rightarrow> string \<Rightarrow> panic + Result list" where
  "probeLink env site l =
     (case snd (detectService env l) of
        Inl p \<Rightarrow> Inl p
      | Inr r0 \<Rightarrow>
          let r = r0\<lparr>SourcePage := site\<rparr>
          in Inr (if Type r \<noteq> ''unknown'' then [r] else []))"

text \<open>
  The loops of one worker run on their own: over the links of a site, and over the
  sites the worker receives from the jobs channel. Each returns the results sent, in
  order, and the panic that stopped it, if any.
\<close>

fun linkLoop :: "Env \<Rightarrow> string \<Rightarrow> string list \<Rightarrow> Result list \<times> panic option" where
  "linkLoop env site [] = ([], None)"
| "linkLoop env site (l # ls) =
     (case probeLink env site l of
        Inl p \<Rightarrow> ([], Some p)
      | Inr rs \<Rightarrow> (case linkLoop env site ls of (rs', p) \<Rightarrow> (rs @ rs', p)))"

fun worker :: "Env \<Rightarrow> string list \<Rightarrow> Result list \<times> panic option" where
  "worker env [] = ([], None)"
| "worker env (site # jobs) =
     (case linkLoop env site (extractLinks env site) of
        (rs, Some p) \<Rightarrow> (rs, Some p)
      | (rs, None) \<Rightarrow> (case worker env jobs of (rs', p) \<Rightarrow> (rs @ rs', p)))"

text \<open>
  \<open>main\<close> starts \<open>maxWorkers\<close> goroutines that all run \<open>worker\<close> on one jobs channel and
  one results channel. The scheduler state holds the sites still queued on the jobs
  channel, the state of every worker goroutine, the results sent so far in arrival order
  (\<open>main\<close> appends them to its \<open>results\<close> slice in that order), and whether a panic has
  ended the process.

  A goroutine is waiting at \<open>range jobs\<close>, or inside the loop over the links of a site
  with the links not yet probed, or it has returned. A step is one action of one
  goroutine, chosen freely: every interleaving is a run. A worker that receives a site
  fetches its page at once; a probe that panics ends the process, and nothing moves
  afterwards. The jobs channel has room for every site and \<open>main\<close> drains the results
  channel while the workers run, so no send waits for ever: waiting on a full channel is
  not modelled.
\<close>

datatype goroutine = Waiting | Scanning string "string list" | Returned

record Sched =
  jobs :: "string list"
  workers :: "goroutine list"
  resultsChan :: "Result list"
  panicked :: bool

inductive step :: "Env \<Rightarrow> Sched \<Rightarrow> Sched \<Rightarrow> bool" for env :: Env where
  receive:
    "\<not> panicked s \<Longrightarrow> i < length (workers s) \<Longrightarrow> workers s ! i = Waiting \<Longrightarrow>
     jobs s = site # rest \<Longrightarrow>
     step env s (s\<lparr>jobs := rest,
                   workers := (workers s)[i := Scanning site (extractLinks env site)]\<rparr>)"
| probe:
    "\<not> panicked s \<Longrightarrow> i < length (workers s) \<Longrightarrow> workers s ! i = Scanning site (l # ls) \<Longrightarrow>
     probeLink env site l = Inr rs \<Longrightarrow>
     step env s (s\<lparr>workers := (workers s)[i := Scanning site ls],
                   resultsChan := resultsChan s @ rs\<rparr>)"
| crash:
    "\<not> panicked s \<Longrightarrow> i < length (workers s) \<Longrightarrow> workers s ! i = Scanning site (l # ls) \<Longrightarrow>
     probeLink env site l = Inl p \<Longrightarrow>
     step env s (s\<lparr>panicked := True\<rparr>)"
| next_site:
    "\<not> panicked s \<Longrightarrow> i < length (workers s) \<Longrightarrow> workers s ! i = Scanning site [] \<Longrightarrow>
     step env s (s\<lparr>workers := (workers s)[i := Waiting]\<rparr>)"
| return:
    "\<not> panicked s \<Longrightarrow> i < length (workers s) \<Longrightarrow> workers s ! i = Waiting \<Longrightarrow>
     jobs s = [] \<Longrightarrow>
     step env s (s\<lparr>workers := (workers s)[i := Returned]\<rparr>)"

text \<open>
  The start of a run with \<open>n\<close> workers: \<open>main\<close> queues every site and closes the jobs
  channel. The run is complete when every worker has returned and no panic occurred:
  then \<open>wg.Wait()\<close> returns, the results channel is closed, and \<open>main\<close> writes the report
  from the results it received.
\<close>

code_pred step .

definition start :: "nat \<Rightarrow> string list \<Rightarrow> Sched" where
  "start n sites =
     \<lparr>jobs = sites, workers = replicate n Waiting, resultsChan = [], panicked = False\<rparr>"

definition completed :: "Sched \<Rightarrow> bool" where
  "completed s = (\<not> panicked s \<and> list_all (\<lambda>w. w = Returned) (workers s))"

definition run :: "Env \<Rightarrow> nat \<Rightarrow> string list \<Rightarrow> Sched \<Rightarrow> bool" where
  "run env n sites s = ((step env)\<^sup>*\<^sup>* (start n sites) s \<and> completed s)"

text \<open>The rows of results.csv after the header, and the lines of takeovers.txt.\<close>

definition csvRows :: "Result list \<Rightarrow> string list list" where
  "csvRows results = map (\<lambda>r. [Type r, Status r, URL r, SourcePage r]) results"

definition takeoverLines :: "Result list \<Rightarrow> string list" where
  "takeoverLines results =
     map (\<lambda>r. URL r @ '' (found in: '' @ SourcePage r @ '')'')
       (filter (\<lambda>r. Status r = ''possible_takeover'') results)"

section \<open>Auxiliary notions for the statements\<close>

text \<open>What the upstream answers to an outbound call.\<close>

definition answer :: "Env \<Rightarrow> Call \<Rightarrow> Response option" where
  "answer env c = (case c of Get u \<Rightarrow> client_Get env u | Do req \<Rightarrow> client_Do env req)"

text \<open>
  The results still owed to the report by a goroutine (those of the links it has not
  probed yet) and by the sites still queued, as multisets; and the whole report owed for
  a list of sites.
\<close>

definition owedBy :: "Env \<Rightarrow> goroutine \<Rightarrow> Result multiset" where
  "owedBy env g =
     (case g of Scanning site ls \<Rightarrow> mset (fst (linkLoop env site ls)) | _ \<Rightarrow> {#})"

definition owedFor :: "Env \<Rightarrow> string list \<Rightarrow> Result multiset" where
  "owedFor env sites =
     sum_list (map (\<lambda>site. mset (fst (linkLoop env site (extractLinks env site)))) sites)"

definition owed :: "Env \<Rightarrow> Sched \<Rightarrow> Result multiset" where
  "owed env s =
     mset (resultsChan s) + sum_list (map (owedBy env) (workers s)) + owedFor env (jobs s)"

text \<open>
  A goroutine, or a queued site, that still has a link ahead whose probe panics.
\<close>

definition doomedBy :: "Env \<Rightarrow> goroutine \<Rightarrow> bool" where
  "doomedBy env g =
     (case g of Scanning site ls \<Rightarrow> snd (linkLoop env site ls) \<noteq> None | _ \<Rightarrow> False)"

definition doomed :: "Env \<Rightarrow> Sched \<Rightarrow> bool" where
  "doomed env s =
     (list_ex (doomedBy env) (workers s)
      \<or> list_ex (\<lambda>site. snd (linkLoop env site (extractLinks env site)) \<noteq> None) (jobs s))"

section \<open>An example environment\<close>

text \<open>
  The examples below run the program in one concrete environment. Its library functions
  are tables holding what Go's \<open>net/url\<close>, \<open>net/http\<close> and \<open>x/net/html\<close> return on the
  arguments the examples reach:
  \<^item> \<open>url.Parse\<close> splits scheme, host and path and decodes percent escapes in the path, so
    the path of \<open>https://github.com/a%25zz/b\<close> is \<open>/a%zz/b\<close>; it rejects a path with an
    invalid percent escape, so it returns an error on \<open>https://github.com/%zz\<close>, on
    \<open>https://chrome.google.com/webstore/detail/%zz\<close> and on
    \<open>https://api.github.com/repos/a%zz/b\<close>;
  \<^item> \<open>http.NewRequest\<close> fails exactly when \<open>url.Parse\<close> fails on its URL, and otherwise
    returns a request with an empty header;
  \<^item> \<open>URL.String\<close> gives back the text a URL was parsed from (all the URLs of the table
    are in normal form), and \<open>ResolveReference\<close> is given for references that consist of
    an absolute path only.
  The upstream serves a page with three links at \<open>https://site.example/\<close>, the "no Pages
  site" placeholder at \<open>https://foo.github.io\<close>, 404 for the repository \<open>acme/widgets\<close>
  and 200 for the user \<open>alice\<close> on the metadata API. Two of its answers break off while
  the body is in transit: the page at \<open>https://slow.github.io\<close> after nine bytes, and the
  page at \<open>https://cut.example/\<close> after its first link (the tokenizer yields the tokens of
  the part that arrived). It refuses every other connection. No credential is configured.
\<close>

definition exampleURLs :: "(string \<times> url_URL option) list" where
  "exampleURLs =
     [(''https://site.example/'',
         Some \<lparr>Scheme = ''https'', Host = ''site.example'', Path = ''/''\<rparr>),
      (''/about'', Some \<lparr>Scheme = [], Host = [], Path = ''/about''\<rparr>),
      (''https://site.example/about'',
         Some \<lparr>Scheme = ''https'', Host = ''site.example'', Path = ''/about''\<rparr>),
      (''https://foo.github.io'',
         Some \<lparr>Scheme = ''https'', Host = ''foo.github.io'', Path = []\<rparr>),
      (''https://slow.github.io'',
         Some \<lparr>Scheme = ''https'', Host = ''slow.github.io'', Path = []\<rparr>),
      (''https://cut.example/'',
         Some \<lparr>Scheme = ''https'', Host = ''cut.example'', Path = ''/''\<rparr>),
      (''https://acme.github.io/widgets/docs'',
         Some \<lparr>Scheme = ''https'', Host = ''acme.github.io'', Path = ''/widgets/docs''\<rparr>),
      (''https://github.com/acme/widgets'',
         Some \<lparr>Scheme = ''https'', Host = ''github.com'', Path = ''/acme/widgets''\<rparr>),
      (''https://gist.github.com/'',
         Some \<lparr>Scheme = ''https'', Host = ''gist.github.com'', Path = ''/''\<rparr>),
      (''https://gist.github.com/alice'',
         Some \<lparr>Scheme = ''https'', Host = ''gist.github.com'', Path = ''/alice''\<rparr>),
      (''https://example.com/'',
         Some \<lparr>Scheme = ''https'', Host = ''example.com'', Path = ''/''\<rparr>),
      (''https://github.com/%zz'', None),
      (''https://chrome.google.com/webstore/detail/%zz'', None),
      (''https://github.com/a%25zz/b'',
         Some \<lparr>Scheme = ''https'', Host = ''github.com'', Path = ''/a%zz/b''\<rparr>),
      (''https://api.github.com/repos/acme/widgets'',
         Some \<lparr>Scheme = ''https'', Host = ''api.github.com'', Path = ''/repos/acme/widgets''\<rparr>),
      (''https://api.github.com/users/alice'',
         Some \<lparr>Scheme = ''https'', Host = ''api.github.com'', Path = ''/users/alice''\<rparr>),
      (''https://api.github.com/repos/a%zz/b'', None)]"

definition exampleParse :: "string \<Rightarrow> url_URL option" where
  "exampleParse s = (case map_of exampleURLs s of Some (Some u) \<Rightarrow> Some u | _ \<Rightarrow> None)"

definition exampleString :: "url_URL \<Rightarrow> string" where
  "exampleString u =
     (case find (\<lambda>(s, r). r = Some u) exampleURLs of Some (s, r) \<Rightarrow> s | None \<Rightarrow> [])"

definition examplePage :: string where
  "examplePage =
     ''<a href=https://foo.github.io>docs</a><a href=/about>about</a>'' @
     ''<a href=https://github.com/acme/widgets>code</a>''"

definition exampleTokens :: "Token list" where
  "exampleTokens =
     [\<lparr>Data = ''a'', Attr = [\<lparr>Key = ''href'', Val = ''https://foo.github.io''\<rparr>]\<rparr>,
      \<lparr>Data = ''docs'', Attr = []\<rparr>,
      \<lparr>Data = ''a'', Attr = []\<rparr>,
      \<lparr>Data = ''a'', Attr = [\<lparr>Key = ''href'', Val = ''/about''\<rparr>]\<rparr>,
      \<lparr>Data = ''about'', Attr = []\<rparr>,
      \<lparr>Data = ''a'', Attr = []\<rparr>,
      \<lparr>Data = ''a'', Attr = [\<lparr>Key = ''href'', Val = ''https://github.com/acme/widgets''\<rparr>]\<rparr>,
      \<lparr>Data = ''code'', Attr = []\<rparr>,
      \<lparr>Data = ''a'', Attr = []\<rparr>]"

definition exampleCutPage :: string where
  "exampleCutPage = ''<a href=https://foo.github.io>do''"

definition exampleCutTokens :: "Token list" where
  "exampleCutTokens =
     [\<lparr>Data = ''a'', Attr = [\<lparr>Key = ''href'', Val = ''https://foo.github.io''\<rparr>]\<rparr>,
      \<lparr>Data = ''do'', Attr = []\<rparr>]"

definition exampleEnv :: Env where
  "exampleEnv =
     \<lparr>url_Parse = exampleParse,
      http_NewRequest =
        (\<lambda>method u. case exampleParse u of
             None \<Rightarrow> None
           | Some _ \<Rightarrow> Some \<lparr>Method = method, RequestURL = u, Header = Map.empty\<rparr>),
      url_ResolveReference =
        (\<lambda>base ref. \<lparr>Scheme = Scheme base, Host = Host base, Path = Path ref\<rparr>),
      url_String = exampleString,
      html_Tokens =
        (\<lambda>body. if body = examplePage then exampleTokens
               else if body = exampleCutPage then exampleCutTokens else []),
      client_Get =
        (\<lambda>u. if u = ''https://site.example/'' then
               Some \<lparr>StatusCode = 200, Body = examplePage, BodyError = False,
                     Request_URL = \<lparr>Scheme = ''https'', Host = ''site.example'', Path = ''/''\<rparr>\<rparr>
             else if u = ''https://foo.github.io'' then
               Some \<lparr>StatusCode = 404,
                     Body = ''<p>There isn't a GitHub Pages site here.</p>'',
                     BodyError = False,
                     Request_URL = \<lparr>Scheme = ''https'', Host = ''foo.github.io'', Path = []\<rparr>\<rparr>
             else if u = ''https://slow.github.io'' then
               Some \<lparr>StatusCode = 200, Body = ''<html><bo'', BodyError = True,
                     Request_URL = \<lparr>Scheme = ''https'', Host = ''slow.github.io'', Path = []\<rparr>\<rparr>
             else if u = ''https://cut.example/'' then
               Some \<lparr>StatusCode = 200, Body = exampleCutPage, BodyError = True,
                     Request_URL = \<lparr>Scheme = ''https'', Host = ''cut.example'', Path = ''/''\<rparr>\<rparr>
             else None),
      client_Do =
        (\<lambda>req. if RequestURL req = ''https://api.github.com/repos/acme/widgets'' then
                 Some \<lparr>StatusCode = 404, Body = ''{}'', BodyError = False,
                       Request_URL = \<lparr>Scheme = ''https'', Host = ''api.github.com'',
                                      Path = ''/repos/acme/widgets''\<rparr>\<rparr>
               else if RequestURL req = ''https://api.github.com/users/alice'' then
                 Some \<lparr>StatusCode = 200, Body = ''{}'', BodyError = False,
                       Request_URL = \<lparr>Scheme = ''https'', Host = ''api.github.com'',
                                      Path = ''/users/alice''\<rparr>\<rparr>
               else None),
      githubToken = []\<rparr>"

section \<open>Facts about the string functions and the probers\<close>

lemmas example_defs = exampleEnv_def exampleParse_def exampleURLs_def exampleString_def
  examplePage_def exampleTokens_def exampleCutPage_def exampleCutTokens_def

lemma Contains_sublist: "Contains s sub \<longleftrightarrow> sublist sub s"
  by (induction s) (auto simp: sublist_Cons_right)

lemma splitFrom_nonempty: "splitFrom sep cur s \<noteq> []"
  by (induction sep cur s rule: splitFrom.induct) auto

lemma Split_nonempty: "Split s sep \<noteq> []"
  by (simp add: Split_def splitFrom_nonempty)

lemma splitFrom_single:
  "length (splitFrom sep cur s) < 2 \<Longrightarrow> splitFrom sep cur s = [rev cur @ s]"
proof (induction sep cur s rule: splitFrom.induct)
  case (1 sep cur)
  show ?case by simp
next
  case (2 sep cur c s)
  show ?case
  proof (cases "sep \<noteq> [] \<and> prefix sep (c # s)")
    case True
    have "splitFrom sep [] (drop (length sep - 1) s) \<noteq> []" by (rule splitFrom_nonempty)
    then have "2 \<le> length (splitFrom sep cur (c # s))"
      using True by (cases "splitFrom sep [] (drop (length sep - 1) s)") auto
    with "2.prems" show ?thesis by simp
  next
    case False
    with "2.prems" "2.IH"(2) show ?thesis by auto
  qed
qed

lemma Split_single: "length (Split s sep) < 2 \<Longrightarrow> Split s sep = [s]"
  using splitFrom_single [of sep "[]" s] by (simp add: Split_def)

text \<open>The decimal rendering is faithful: different codes give different texts.\<close>

lemma digit_inj: "a < 10 \<Longrightarrow> b < 10 \<Longrightarrow> digit a = digit b \<Longrightarrow> a = b"
proof -
  assume a: "a < 10" and b: "b < 10" and e: "digit a = digit b"
  from e have "of_char (char_of (48 + a) :: char) = (of_char (char_of (48 + b) :: char) :: nat)"
    by (simp add: digit_def)
  with a b show ?thesis by simp
qed

lemma digit_not_minus: "a < 10 \<Longrightarrow> digit a \<noteq> CHR ''-''"
proof
  assume a: "a < 10" and e: "digit a = CHR ''-''"
  from e have "of_char (char_of (48 + a) :: char) = (of_char CHR ''-'' :: nat)"
    by (simp add: digit_def)
  with a show False by simp
qed

lemma decimal_nonempty: "decimal n \<noteq> []"
  by (subst decimal.simps) simp

lemma decimal_inj: "decimal m = decimal n \<Longrightarrow> m = n"
proof (induction m arbitrary: n rule: decimal.induct)
  case (1 m)
  show ?case
  proof (cases "m < 10")
    case True
    show ?thesis
    proof (cases "n < 10")
      case n: True
      from "1.prems" True n have "digit m = digit n"
        by (simp add: decimal.simps [of m] decimal.simps [of n])
      from digit_inj [OF True n this] show ?thesis .
    next
      case n: False
      from "1.prems" True n decimal_nonempty [of "n div 10"] show ?thesis
        by (simp add: decimal.simps [of m] decimal.simps [of n])
    qed
  next
    case False
    show ?thesis
    proof (cases "n < 10")
      case n: True
      from "1.prems" False n decimal_nonempty [of "m div 10"] show ?thesis
        by (simp add: decimal.simps [of m] decimal.simps [of n])
    next
      case n: False
      from "1.prems" False n
      have d: "decimal (m div 10) = decimal (n div 10)"
        and l: "digit (m mod 10) = digit (n mod 10)"
        by (simp_all add: decimal.simps [of m] decimal.simps [of n])
      from "1.IH" [OF False d] have "m div 10 = n div 10" .
      moreover from l have "m mod 10 = n mod 10" by (intro digit_inj) simp_all
      ultimately show ?thesis by (metis div_mult_mod_eq)
    qed
  qed
qed

lemma decimal_hd: "hd (decimal n) \<noteq> CHR ''-''"
proof (induction n rule: decimal.induct)
  case (1 n)
  show ?case
  proof (cases "n < 10")
    case True
    then show ?thesis by (simp add: decimal.simps [of n] digit_not_minus)
  next
    case False
    with "1.IH" decimal_nonempty [of "n div 10"] show ?thesis
      by (simp add: decimal.simps [of n])
  qed
qed

lemma Sprintf_d_inj: "Sprintf_d m = Sprintf_d n \<Longrightarrow> m = n"
proof -
  assume e: "Sprintf_d m = Sprintf_d n"
  have neg: "CHR ''-'' # xs \<noteq> decimal k" for xs k
    using decimal_hd [of k] by (metis list.sel(1))
  show ?thesis
  proof (cases "m < 0")
    case True
    show ?thesis
    proof (cases "n < 0")
      case n: True
      from e True n have "decimal (nat (- m)) = decimal (nat (- n))"
        by (simp add: Sprintf_d_def)
      from decimal_inj [OF this] True n show ?thesis by simp
    next
      case n: False
      from e True n neg show ?thesis by (simp add: Sprintf_d_def)
    qed
  next
    case False
    show ?thesis
    proof (cases "n < 0")
      case n: True
      from e False n neg [of "decimal (nat (- n))" "nat m"] show ?thesis
        by (simp add: Sprintf_d_def)
    next
      case n: False
      from e False n have "decimal (nat m) = decimal (nat n)"
        by (simp add: Sprintf_d_def)
      from decimal_inj [OF this] False n show ?thesis by simp
    qed
  qed
qed

lemma Sprintf_d_examples:
  "Sprintf_d 500 = ''500''" "Sprintf_d 301 = ''301''" "Sprintf_d 0 = ''0''"
  "Sprintf_d (- 7) = ''-7''"
  by code_simp+

lemma detectService_github:
  "Contains link ''github.com'' \<or> Contains link ''github.io'' \<or> Contains link ''gist.github.com''
   \<Longrightarrow> detectService env link = checkGitHub env link"
  by (simp add: detectService_def)

lemma Contains_gist_github:
  "Contains link ''gist.github.com'' \<Longrightarrow> Contains link ''github.com''"
proof -
  assume "Contains link ''gist.github.com''"
  then have "sublist ''gist.github.com'' link" by (simp add: Contains_sublist)
  moreover have "sublist ''github.com'' ''gist.github.com''"
    unfolding sublist_def by (rule exI [of _ "''gist.''"], rule exI [of _ "[]"]) simp
  ultimately have "sublist ''github.com'' link" by (rule sublist_order.order.trans [rotated])
  then show ?thesis by (simp add: Contains_sublist)
qed

lemma githubAPIRequest_None:
  "http_NewRequest env ''GET'' api = None \<Longrightarrow>
   githubAPIRequest env entityType api link = ([], Inl NilPointerDereference)"
  by (simp add: githubAPIRequest_def)

lemma githubAPIRequest_Some:
  assumes "http_NewRequest env ''GET'' api = Some req0"
  shows "\<exists>req. req = (if githubToken env \<noteq> []
                     then Header_Set (Header_Set req0 ''User-Agent'' ''Takeover-Scanner'')
                            ''Authorization'' (''token '' @ githubToken env)
                     else Header_Set req0 ''User-Agent'' ''Takeover-Scanner'')
           \<and> githubAPIRequest env entityType api link =
              ([Do req],
               Inr \<lparr>Type = entityType,
                    Status = (case client_Do env req of
                       None \<Rightarrow> ''connection_error''
                     | Some resp \<Rightarrow>
                         if StatusCode resp = 404 then ''not_found''
                         else if StatusCode resp = 200 then ''exists''
                         else if StatusCode resp = 403 \<or> StatusCode resp = 429
                           then ''rate_limited''
                         else ''error_'' @ Sprintf_d (StatusCode resp)),
                    URL = link, SourcePage = []\<rparr>)"
proof -
  define req where "req = (if githubToken env \<noteq> []
                     then Header_Set (Header_Set req0 ''User-Agent'' ''Takeover-Scanner'')
                            ''Authorization'' (''token '' @ githubToken env)
                     else Header_Set req0 ''User-Agent'' ''Takeover-Scanner'')"
  have unfold: "githubAPIRequest env entityType api link =
     (case client_Do env req of
                None \<Rightarrow>
                  ([Do req], Inr \<lparr>Type = entityType, Status = ''connection_error'',
                                 URL = link, SourcePage = []\<rparr>)
              | Some resp \<Rightarrow>
                  ([Do req], Inr
                    (if StatusCode resp = 404 then
                       \<lparr>Type = entityType, Status = ''not_found'', URL = link, SourcePage = []\<rparr>
                     else if StatusCode resp = 200 then
                       \<lparr>Type = entityType, Status = ''exists'', URL = link, SourcePage = []\<rparr>
                     else if StatusCode resp = 403 \<or> StatusCode resp = 429 then
                       \<lparr>Type = entityType, Status = ''rate_limited'', URL = link, SourcePage = []\<rparr>
                     else
                       \<lparr>Type = entityType, Status = ''error_'' @ Sprintf_d (StatusCode resp),
                        URL = link, SourcePage = []\<rparr>)))"
    unfolding githubAPIRequest_def assms req_def by (simp only: option.case Let_def)
  have "githubAPIRequest env entityType api link =
              ([Do req],
               Inr \<lparr>Type = entityType,
                    Status = (case client_Do env req of
                       None \<Rightarrow> ''connection_error''
                     | Some resp \<Rightarrow>
                         if StatusCode resp = 404 then ''not_found''
                         else if StatusCode resp = 200 then ''exists''
                         else if StatusCode resp = 403 \<or> StatusCode resp = 429
                           then ''rate_limited''
                         else ''error_'' @ Sprintf_d (StatusCode resp)),
                    URL = link, SourcePage = []\<rparr>)"
  proof (cases "client_Do env req")
    case None
    then show ?thesis unfolding unfold by simp
  next
    case (Some resp)
    then show ?thesis unfolding unfold by simp
  qed
  then show ?thesis using req_def by blast
qed


lemma getProbe_Type:
  "\<exists>r. snd (getProbe env service signature link) = Inr r \<and> Type r = service"
  by (simp add: getProbe_def split: option.splits)

lemma checkChromeExtension_Type:
  "\<exists>r. snd (checkChromeExtension env link) = Inr r \<and> Type r = ''chrome_ext''"
  by (simp add: checkChromeExtension_def Let_def split: option.splits)

lemma githubAPIRequest_kind:
  "map_sum id Type (snd (githubAPIRequest env entityType api link)) =
     (case http_NewRequest env ''GET'' api of
        None \<Rightarrow> Inl NilPointerDereference
      | Some req0 \<Rightarrow> Inr entityType)"
proof (cases "http_NewRequest env ''GET'' api")
  case None
  then show ?thesis by (simp add: githubAPIRequest_None)
next
  case (Some req0)
  from githubAPIRequest_Some [OF Some, of entityType link] Some show ?thesis by auto
qed

lemma checkGitHub_kind:
  "map_sum id Type (snd (checkGitHub env link)) =
     (case url_Parse env link of
        None \<Rightarrow> Inl NilPointerDereference
      | Some parsed \<Rightarrow>
          let parts = Split (Trim (Path parsed) ''/'') ''/'' in
          if Contains link ''github.io'' then Inr ''github_pages''
          else if Contains link ''gist.github.com'' \<and> length parts \<ge> 2 then
            (case http_NewRequest env ''GET'' (''https://api.github.com/gists/'' @ last parts) of
               None \<Rightarrow> Inl NilPointerDereference | Some req0 \<Rightarrow> Inr ''gist'')
          else if length parts \<ge> 2 then
            (case http_NewRequest env ''GET''
                    (''https://api.github.com/repos/'' @ parts ! 0 @ ''/'' @ parts ! 1) of
               None \<Rightarrow> Inl NilPointerDereference | Some req0 \<Rightarrow> Inr ''repo'')
          else if length parts = 1 \<and> parts ! 0 \<noteq> [] then
            (case http_NewRequest env ''GET'' (''https://api.github.com/users/'' @ parts ! 0) of
               None \<Rightarrow> Inl NilPointerDereference | Some req0 \<Rightarrow> Inr ''user'')
          else Inr ''github'')"
proof (cases "url_Parse env link")
  case None
  then show ?thesis by (simp add: checkGitHub_def)
next
  case (Some parsed)
  show ?thesis
  proof (cases "Contains link ''github.io''")
    case True
    with Some show ?thesis by (simp add: checkGitHub_def split: option.splits)
  next
    case False
    with Some show ?thesis
      by (simp add: checkGitHub_def Let_def githubAPIRequest_kind)
  qed
qed

lemma checkGitHub_Type:
  assumes "snd (checkGitHub env link) = Inr r"
  shows "Type r \<in> {''github_pages'', ''gist'', ''repo'', ''user'', ''github''}"
proof -
  from assms have "map_sum id Type (snd (checkGitHub env link)) = Inr (Type r)" by simp
  then show ?thesis
    unfolding checkGitHub_kind
    by (auto simp: Let_def split: option.splits if_splits)
qed

lemma detectService_unknown:
  assumes "snd (detectService env l) = Inr r" and "Type r = ''unknown''"
  shows "detectService env l =
           ([], Inr \<lparr>Type = ''unknown'', Status = ''skipped'', URL = l, SourcePage = []\<rparr>)"
proof -
  have gh: "snd (checkGitHub env l) \<noteq> Inr r"
    using checkGitHub_Type [of env l r] assms(2) by auto
  have gp: "snd (getProbe env service signature l) \<noteq> Inr r" if "service \<noteq> ''unknown''"
    for service signature
    using getProbe_Type [of env service signature l] that assms(2) by auto
  have ce: "snd (checkChromeExtension env l) \<noteq> Inr r"
    using checkChromeExtension_Type [of env l] assms(2) by auto
  have n1: "\<not> (Contains l ''github.com'' \<or> Contains l ''github.io''
              \<or> Contains l ''gist.github.com'')"
    using assms(1) gh detectService_github [of l env] by auto
  have n2: "\<not> Contains l ''.s3.amazonaws.com''"
    using assms(1) n1 gp [of "''s3''"] by (auto simp: detectService_def checkS3_def)
  have n3: "\<not> Contains l ''herokuapp.com''"
    using assms(1) n1 n2 gp [of "''heroku''"] by (auto simp: detectService_def checkHeroku_def)
  have n4: "\<not> Contains l ''.vercel.app''"
    using assms(1) n1 n2 n3 gp [of "''vercel''"]
    by (auto simp: detectService_def checkVercel_def)
  have n5: "\<not> Contains l ''.netlify.app''"
    using assms(1) n1 n2 n3 n4 gp [of "''netlify''"]
    by (auto simp: detectService_def checkNetlify_def)
  have n6: "\<not> Contains l ''chrome.google.com/webstore/detail/''"
    using assms(1) n1 n2 n3 n4 n5 ce by (auto simp: detectService_def)
  have n7: "\<not> Contains l ''.wixsite.com''"
    using assms(1) n1 n2 n3 n4 n5 n6 gp [of "''wix''"]
    by (auto simp: detectService_def checkWix_def)
  have n8: "\<not> Contains l ''.tumblr.com''"
    using assms(1) n1 n2 n3 n4 n5 n6 n7 gp [of "''tumblr''"]
    by (auto simp: detectService_def checkTumblr_def)
  have n9: "\<not> Contains l ''.myshopify.com''"
    using assms(1) n1 n2 n3 n4 n5 n6 n7 n8 gp [of "''shopify''"]
    by (auto simp: detectService_def checkShopify_def)
  from n1 n2 n3 n4 n5 n6 n7 n8 n9 show ?thesis by (simp add: detectService_def)
qed

text \<open>
  The type of a verdict, and whether there is one, is fixed by the link and the library
  functions alone: the upstream and the credential have no part in it.
\<close>

lemma detectService_kind_independent:
  assumes "url_Parse env' = url_Parse env" and "http_NewRequest env' = http_NewRequest env"
  shows "map_sum id Type (snd (detectService env' link))
       = map_sum id Type (snd (detectService env link))"
proof -
  have gp: "map_sum id Type (snd (getProbe e service signature link)) = Inr service"
    for e service signature
    using getProbe_Type [of e service signature link] by auto
  have ce: "map_sum id Type (snd (checkChromeExtension e link)) = Inr ''chrome_ext''" for e
    using checkChromeExtension_Type [of e link] by auto
  have gh: "map_sum id Type (snd (checkGitHub env' link))
          = map_sum id Type (snd (checkGitHub env link))"
    unfolding checkGitHub_kind assms ..
  show ?thesis
    by (simp add: detectService_def checkS3_def checkHeroku_def checkVercel_def
        checkNetlify_def checkWix_def checkTumblr_def checkShopify_def gp ce gh)
qed

lemma detectService_returns:
  assumes "url_Parse env link \<noteq> None" and "\<forall>api. http_NewRequest env ''GET'' api \<noteq> None"
  shows "\<exists>r. snd (detectService env link) = Inr r"
proof -
  have gp: "\<exists>r. snd (getProbe env service signature link) = Inr r" for service signature
    using getProbe_Type [of env service signature link] by auto
  have ce: "\<exists>r. snd (checkChromeExtension env link) = Inr r"
    using checkChromeExtension_Type [of env link] by auto
  have ar: "\<exists>r. snd (githubAPIRequest env entityType api link) = Inr r" for entityType api
  proof -
    from assms(2) obtain req0 where "http_NewRequest env ''GET'' api = Some req0" by auto
    from githubAPIRequest_Some [OF this, of entityType link] show ?thesis by auto
  qed
  from assms(1) obtain parsed where "url_Parse env link = Some parsed" by auto
  then have gh: "\<exists>r. snd (checkGitHub env link) = Inr r"
    by (simp add: checkGitHub_def Let_def ar split: option.splits)
  show ?thesis
    using gp ce gh
    by (simp add: detectService_def checkS3_def checkHeroku_def checkVercel_def
        checkNetlify_def checkWix_def checkTumblr_def checkShopify_def)
qed

section \<open>Facts about the worker and the scheduler\<close>

lemma sum_list_map_update:
  fixes f :: "'a \<Rightarrow> 'b multiset"
  shows "i < length ws \<Longrightarrow>
         sum_list (map f (ws[i := w])) + f (ws ! i) = sum_list (map f ws) + f w"
proof (induction ws arbitrary: i)
  case Nil
  then show ?case by simp
next
  case (Cons a ws)
  show ?case
  proof (cases i)
    case 0
    then show ?thesis by (simp add: ac_simps)
  next
    case (Suc j)
    with Cons.prems have "j < length ws" by simp
    from Cons.IH [OF this] Suc show ?thesis by (simp add: ac_simps)
  qed
qed

lemma sum_list_replicate_empty: "sum_list (replicate n ({#} :: 'a multiset)) = {#}"
  by (induction n) auto

lemma list_ex_nth: "list_ex P xs \<longleftrightarrow> (\<exists>j<length xs. P (xs ! j))"
  unfolding list_ex_iff by (metis in_set_conv_nth)

lemma probeLink_known:
  "probeLink env site l = Inr rs \<Longrightarrow> \<forall>r\<in>set rs. Type r \<noteq> ''unknown''"
  by (auto simp: probeLink_def Let_def split: sum.splits if_splits)

lemma linkLoop_Cons_Inr:
  "probeLink env site l = Inr rs \<Longrightarrow>
   fst (linkLoop env site (l # ls)) = rs @ fst (linkLoop env site ls) \<and>
   snd (linkLoop env site (l # ls)) = snd (linkLoop env site ls)"
  by (simp split: prod.splits)

lemma linkLoop_known: "\<forall>r\<in>set (fst (linkLoop env site ls)). Type r \<noteq> ''unknown''"
proof (induction ls)
  case Nil
  show ?case by simp
next
  case (Cons l ls)
  show ?case
  proof (cases "probeLink env site l")
    case (Inl p)
    then show ?thesis by simp
  next
    case (Inr rs)
    have eq: "fst (linkLoop env site (l # ls)) = rs @ fst (linkLoop env site ls)"
      using linkLoop_Cons_Inr [OF Inr] by blast
    show ?thesis unfolding eq using Cons probeLink_known [OF Inr] by auto
  qed
qed

lemma worker_known: "\<forall>r\<in>set (fst (worker env sites)). Type r \<noteq> ''unknown''"
proof (induction sites)
  case Nil
  show ?case by simp
next
  case (Cons site sites)
  with linkLoop_known [of env site "extractLinks env site"] show ?case
    by (auto split: prod.splits option.splits)
qed

lemma step_not_panicked: "step env s s' \<Longrightarrow> \<not> panicked s"
  by (induction rule: step.induct) auto

lemma step_length: "step env s s' \<Longrightarrow> length (workers s') = length (workers s)"
  by (induction rule: step.induct) auto

lemma steps_length: "(step env)\<^sup>*\<^sup>* s s' \<Longrightarrow> length (workers s') = length (workers s)"
  by (induction rule: rtranclp_induct) (auto simp: step_length)

lemma step_known:
  "step env s s' \<Longrightarrow> \<forall>r\<in>set (resultsChan s). Type r \<noteq> ''unknown'' \<Longrightarrow>
   \<forall>r\<in>set (resultsChan s'). Type r \<noteq> ''unknown''"
  by (induction rule: step.induct) (auto dest: probeLink_known)

lemma steps_known:
  "(step env)\<^sup>*\<^sup>* s s' \<Longrightarrow> \<forall>r\<in>set (resultsChan s). Type r \<noteq> ''unknown'' \<Longrightarrow>
   \<forall>r\<in>set (resultsChan s'). Type r \<noteq> ''unknown''"
  by (induction rule: rtranclp_induct) (auto dest: step_known)

lemma owedBy_simps [simp]:
  "owedBy env Waiting = {#}" "owedBy env Returned = {#}"
  "owedBy env (Scanning site ls) = mset (fst (linkLoop env site ls))"
  by (simp_all add: owedBy_def)

lemma owedFor_simps [simp]:
  "owedFor env [] = {#}"
  "owedFor env (site # sites) =
     mset (fst (linkLoop env site (extractLinks env site))) + owedFor env sites"
  by (simp_all add: owedFor_def)

lemma step_owed: "step env s s' \<Longrightarrow> owed env s' = owed env s"
proof (induction rule: step.induct)
  case (receive s i site rest)
  from sum_list_map_update [OF receive(2), of "owedBy env" "Scanning site (extractLinks env site)"]
  show ?case using receive by (simp add: owed_def ac_simps)
next
  case (probe s i site l ls rs)
  from sum_list_map_update [OF probe(2), of "owedBy env" "Scanning site ls"]
    linkLoop_Cons_Inr [OF probe(4), of ls]
  show ?case using probe by (simp add: owed_def ac_simps)
next
  case (crash s i site l ls p)
  then show ?case by (simp add: owed_def)
next
  case (next_site s i site)
  from sum_list_map_update [OF next_site(2), of "owedBy env" Waiting]
  show ?case using next_site by (simp add: owed_def)
next
  case (return s i)
  from sum_list_map_update [OF return(2), of "owedBy env" Returned]
  show ?case using return by (simp add: owed_def)
qed

lemma steps_owed: "(step env)\<^sup>*\<^sup>* s s' \<Longrightarrow> owed env s' = owed env s"
  by (induction rule: rtranclp_induct) (auto simp: step_owed)

text \<open>Once a worker has returned, the jobs channel is empty.\<close>

lemma Returned_update:
  "g \<noteq> Returned \<Longrightarrow> list_ex (\<lambda>w. w = Returned) (ws[i := g]) \<Longrightarrow>
   list_ex (\<lambda>w. w = Returned) ws"
  unfolding list_ex_iff using set_update_subset_insert [of ws i g] by auto

lemma step_drained:
  assumes "step env s s'" and "list_ex (\<lambda>w. w = Returned) (workers s) \<longrightarrow> jobs s = []"
  shows "list_ex (\<lambda>w. w = Returned) (workers s') \<longrightarrow> jobs s' = []"
  using assms
proof (induction rule: step.induct)
  case (receive s i site rest)
  then have "\<not> list_ex (\<lambda>w. w = Returned) (workers s)" by auto
  then have "\<not> list_ex (\<lambda>w. w = Returned)
       ((workers s)[i := Scanning site (extractLinks env site)])"
    using Returned_update [of "Scanning site (extractLinks env site)" "workers s" i] by auto
  then show ?case by simp
next
  case (probe s i site l ls rs)
  then show ?case
    using Returned_update [of "Scanning site ls" "workers s" i] by auto
next
  case (crash s i site l ls p)
  then show ?case by simp
next
  case (next_site s i site)
  then show ?case
    using Returned_update [of Waiting "workers s" i] by auto
next
  case (return s i)
  then show ?case by simp
qed

lemma steps_drained:
  "(step env)\<^sup>*\<^sup>* s s' \<Longrightarrow> list_ex (\<lambda>w. w = Returned) (workers s) \<longrightarrow> jobs s = [] \<Longrightarrow>
   list_ex (\<lambda>w. w = Returned) (workers s') \<longrightarrow> jobs s' = []"
  by (induction rule: rtranclp_induct) (auto dest: step_drained)

lemma all_Returned_owed:
  "list_all (\<lambda>w. w = Returned) ws \<Longrightarrow> sum_list (map (owedBy env) ws) = {#}"
  by (induction ws) auto

lemma run_drained:
  assumes "run env n sites s" and "0 < n"
  shows "jobs s = []"
proof -
  from assms(1) have st: "(step env)\<^sup>*\<^sup>* (start n sites) s" and c: "completed s"
    by (simp_all add: run_def)
  have "\<not> list_ex (\<lambda>w. w = Returned) (workers (start n sites))"
    by (simp add: start_def list_ex_iff)
  with steps_drained [OF st] have d: "list_ex (\<lambda>w. w = Returned) (workers s) \<longrightarrow> jobs s = []"
    by simp
  from steps_length [OF st] assms(2) have "workers s \<noteq> []" by (auto simp: start_def)
  with c have "list_ex (\<lambda>w. w = Returned) (workers s)"
    by (cases "workers s") (auto simp: completed_def)
  with d show ?thesis by simp
qed

lemma run_report:
  assumes "run env n sites s" and "0 < n"
  shows "mset (resultsChan s) = owedFor env sites"
proof -
  from assms(1) have st: "(step env)\<^sup>*\<^sup>* (start n sites) s" and c: "completed s"
    by (simp_all add: run_def)
  have "owed env (start n sites) = owedFor env sites"
    by (simp add: owed_def start_def sum_list_replicate_empty)
  with steps_owed [OF st] have "owed env s = owedFor env sites" by simp
  moreover from c have "sum_list (map (owedBy env) (workers s)) = {#}"
    by (simp add: completed_def all_Returned_owed)
  moreover from run_drained [OF assms] have "owedFor env (jobs s) = {#}" by simp
  ultimately show ?thesis by (simp add: owed_def)
qed

text \<open>
  One schedule always exists: a single worker takes every site in turn and the others
  wait until the queue is empty.
\<close>

lemma scan_run:
  assumes "\<not> panicked s" and "i < length (workers s)"
    and "workers s ! i = Scanning site ls" and "snd (linkLoop env site ls) = None"
  shows "(step env)\<^sup>*\<^sup>* s
           (s\<lparr>workers := (workers s)[i := Waiting],
              resultsChan := resultsChan s @ fst (linkLoop env site ls)\<rparr>)"
  using assms
proof (induction ls arbitrary: s)
  case Nil
  have "step env s (s\<lparr>workers := (workers s)[i := Waiting]\<rparr>)"
    using Nil by (intro step.next_site) auto
  then show ?case by simp
next
  case (Cons l ls)
  from Cons.prems(4) obtain rs where rs: "probeLink env site l = Inr rs"
    by (cases "probeLink env site l") auto
  define s1 where
    "s1 = s\<lparr>workers := (workers s)[i := Scanning site ls], resultsChan := resultsChan s @ rs\<rparr>"
  have st: "step env s s1"
    unfolding s1_def using Cons.prems rs by (intro step.probe) auto
  from linkLoop_Cons_Inr [OF rs, of ls] Cons.prems(4)
  have fs: "fst (linkLoop env site (l # ls)) = rs @ fst (linkLoop env site ls)"
    and sn: "snd (linkLoop env site ls) = None" by simp_all
  have "(step env)\<^sup>*\<^sup>* s1
          (s1\<lparr>workers := (workers s1)[i := Waiting],
              resultsChan := resultsChan s1 @ fst (linkLoop env site ls)\<rparr>)"
    using Cons.prems sn by (intro Cons.IH) (simp_all add: s1_def)
  moreover have "s1\<lparr>workers := (workers s1)[i := Waiting],
              resultsChan := resultsChan s1 @ fst (linkLoop env site ls)\<rparr>
      = s\<lparr>workers := (workers s)[i := Waiting],
              resultsChan := resultsChan s @ fst (linkLoop env site (l # ls))\<rparr>"
    unfolding fs by (simp add: s1_def)
  ultimately show ?case using st by (simp only: converse_rtranclp_into_rtranclp)
qed

lemma jobs_run:
  assumes "\<not> panicked s" and "i < length (workers s)" and "workers s ! i = Waiting"
    and "jobs s = sites" and "snd (worker env sites) = None"
  shows "(step env)\<^sup>*\<^sup>* s
           (s\<lparr>jobs := [], resultsChan := resultsChan s @ fst (worker env sites)\<rparr>)"
  using assms
proof (induction sites arbitrary: s)
  case Nil
  then have "s\<lparr>jobs := [], resultsChan := resultsChan s @ fst (worker env [])\<rparr> = s"
    by (cases s) simp
  then show ?case by simp
next
  case (Cons site rest)
  define links where "links = extractLinks env site"
  from Cons.prems(5) have ll: "snd (linkLoop env site links) = None"
    and wr: "snd (worker env rest) = None"
    and fw: "fst (worker env (site # rest)) = fst (linkLoop env site links) @ fst (worker env rest)"
    by (auto simp: links_def split: prod.splits option.splits)
  define s1 where "s1 = s\<lparr>jobs := rest, workers := (workers s)[i := Scanning site links]\<rparr>"
  have st1: "step env s s1"
    unfolding s1_def links_def using Cons.prems by (intro step.receive) auto
  define s2 where
    "s2 = s1\<lparr>workers := (workers s1)[i := Waiting],
             resultsChan := resultsChan s1 @ fst (linkLoop env site links)\<rparr>"
  have st2: "(step env)\<^sup>*\<^sup>* s1 s2"
    unfolding s2_def using Cons.prems ll by (intro scan_run) (simp_all add: s1_def)
  have w2: "workers s2 = workers s"
    using Cons.prems(3) by (simp add: s2_def s1_def) (metis list_update_id)
  have st3: "(step env)\<^sup>*\<^sup>* s2
          (s2\<lparr>jobs := [], resultsChan := resultsChan s2 @ fst (worker env rest)\<rparr>)"
    using Cons.prems wr w2 by (intro Cons.IH) (simp_all add: s2_def s1_def)
  have "s2\<lparr>jobs := [], resultsChan := resultsChan s2 @ fst (worker env rest)\<rparr>
      = s\<lparr>jobs := [], resultsChan := resultsChan s @ fst (worker env (site # rest))\<rparr>"
    unfolding fw using w2 by (simp add: s2_def s1_def)
  with st1 st2 st3 show ?case
    by (metis converse_rtranclp_into_rtranclp rtranclp_trans)
qed

lemma return_run:
  assumes "\<not> panicked s" and "jobs s = []"
    and "workers s = replicate k Returned @ replicate m Waiting"
  shows "(step env)\<^sup>*\<^sup>* s (s\<lparr>workers := replicate (k + m) Returned\<rparr>)"
  using assms
proof (induction m arbitrary: k s)
  case 0
  then have "s\<lparr>workers := replicate (k + 0) Returned\<rparr> = s" by simp
  then show ?case by simp
next
  case (Suc m)
  define s1 where "s1 = s\<lparr>workers := (workers s)[k := Returned]\<rparr>"
  have nth: "workers s ! k = Waiting" "k < length (workers s)"
    using Suc.prems(3) by (simp_all add: nth_append)
  have st: "step env s s1"
    unfolding s1_def using Suc.prems nth by (intro step.return) auto
  have "(workers s)[k := Returned] = replicate k Returned @ Returned # replicate m Waiting"
    using Suc.prems(3) by (simp add: list_update_append)
  also have "\<dots> = replicate (Suc k) Returned @ replicate m Waiting"
    by (simp add: replicate_append_same)
  finally have w1: "workers s1 = replicate (Suc k) Returned @ replicate m Waiting"
    by (simp add: s1_def)
  have "(step env)\<^sup>*\<^sup>* s1 (s1\<lparr>workers := replicate (Suc k + m) Returned\<rparr>)"
    using Suc.prems w1 by (intro Suc.IH) (simp_all add: s1_def)
  moreover have "s1\<lparr>workers := replicate (Suc k + m) Returned\<rparr>
       = s\<lparr>workers := replicate (k + Suc m) Returned\<rparr>"
    by (simp add: s1_def)
  ultimately show ?case using st by (simp only: converse_rtranclp_into_rtranclp)
qed

lemma sequential_run:
  assumes "0 < n" and "snd (worker env sites) = None"
  shows "run env n sites
           \<lparr>jobs = [], workers = replicate n Returned,
            resultsChan = fst (worker env sites), panicked = False\<rparr>"
proof -
  define s0 where "s0 = start n sites"
  define s1 where "s1 = s0\<lparr>jobs := [], resultsChan := resultsChan s0 @ fst (worker env sites)\<rparr>"
  have "(step env)\<^sup>*\<^sup>* s0 s1"
    unfolding s1_def using assms by (intro jobs_run [where i = 0]) (simp_all add: s0_def start_def)
  moreover have "(step env)\<^sup>*\<^sup>* s1 (s1\<lparr>workers := replicate (0 + n) Returned\<rparr>)"
    by (intro return_run) (simp_all add: s1_def s0_def start_def)
  moreover have "s1\<lparr>workers := replicate (0 + n) Returned\<rparr>
     = \<lparr>jobs = [], workers = replicate n Returned,
            resultsChan = fst (worker env sites), panicked = False\<rparr>"
    by (simp add: s1_def s0_def start_def)
  ultimately have "(step env)\<^sup>*\<^sup>* (start n sites)
     \<lparr>jobs = [], workers = replicate n Returned,
            resultsChan = fst (worker env sites), panicked = False\<rparr>"
    by (simp add: s0_def)
  then show ?thesis by (simp add: run_def completed_def list_all_iff)
qed

text \<open>A run that is doomed to panic cannot complete.\<close>

lemma doomedBy_simps [simp]:
  "\<not> doomedBy env Waiting" "\<not> doomedBy env Returned"
  "doomedBy env (Scanning site ls) \<longleftrightarrow> snd (linkLoop env site ls) \<noteq> None"
  by (simp_all add: doomedBy_def)

lemma list_ex_update_same:
  assumes "i < length ws" and "P g = P (ws ! i)"
  shows "list_ex P (ws[i := g]) \<longleftrightarrow> list_ex P ws"
proof -
  have "P (ws[i := g] ! j) = P (ws ! j)" if "j < length ws" for j
    using that assms by (cases "j = i") simp_all
  then show ?thesis unfolding list_ex_nth by auto
qed

lemma list_ex_update_new:
  assumes "i < length ws" and "\<not> P (ws ! i)"
  shows "list_ex P (ws[i := g]) \<longleftrightarrow> P g \<or> list_ex P ws"
proof (cases "P g")
  case True
  moreover from assms(1) have "g \<in> set (ws[i := g])" by (rule set_update_memI)
  ultimately show ?thesis by (auto simp: list_ex_iff)
next
  case False
  with assms list_ex_update_same [of i ws P g] show ?thesis by simp
qed

lemma step_doomed:
  "step env s s' \<Longrightarrow> \<not> panicked s' \<Longrightarrow> doomed env s \<Longrightarrow> doomed env s'"
proof (induction rule: step.induct)
  case (receive s i site rest)
  then show ?case by (auto simp: doomed_def list_ex_update_new)
next
  case (probe s i site l ls rs)
  have "doomedBy env (Scanning site ls) = doomedBy env (workers s ! i)"
    using linkLoop_Cons_Inr [OF probe(4), of ls] probe(3) by simp
  with probe(2) have "list_ex (doomedBy env) ((workers s)[i := Scanning site ls])
      = list_ex (doomedBy env) (workers s)"
    by (rule list_ex_update_same)
  with probe show ?case by (simp add: doomed_def)
next
  case (crash s i site l ls p)
  then show ?case by simp
next
  case (next_site s i site)
  then show ?case by (auto simp: doomed_def list_ex_update_new)
next
  case (return s i)
  then show ?case by (auto simp: doomed_def list_ex_update_new)
qed

lemma steps_doomed:
  "(step env)\<^sup>*\<^sup>* s s' \<Longrightarrow> \<not> panicked s' \<Longrightarrow> doomed env s \<Longrightarrow> doomed env s'"
proof (induction rule: rtranclp_induct)
  case base
  then show ?case by simp
next
  case (step y z)
  from step.hyps(2) have "\<not> panicked y" by (rule step_not_panicked)
  with step show ?case by (auto dest: step_doomed)
qed

lemma worker_panics:
  "snd (worker env sites) \<noteq> None \<longleftrightarrow>
   list_ex (\<lambda>site. snd (linkLoop env site (extractLinks env site)) \<noteq> None) sites"
  by (induction sites) (auto split: prod.splits option.splits)

lemma run_no_panic:
  assumes "run env n sites s" and "0 < n"
  shows "snd (worker env sites) = None"
proof (rule ccontr)
  assume "snd (worker env sites) \<noteq> None"
  then have "list_ex (\<lambda>site. snd (linkLoop env site (extractLinks env site)) \<noteq> None) sites"
    using worker_panics by blast
  then have "doomed env (start n sites)"
    by (simp add: doomed_def start_def)
  moreover from assms(1) have st: "(step env)\<^sup>*\<^sup>* (start n sites) s" and c: "completed s"
    by (simp_all add: run_def)
  ultimately have "doomed env s" using steps_doomed c by (auto simp: completed_def)
  moreover from c have "\<not> list_ex (doomedBy env) (workers s)"
    by (auto simp: completed_def list_ex_iff list_all_iff)
  moreover from run_drained [OF assms] have "jobs s = []" .
  ultimately show False by (simp add: doomed_def)
qed

lemma run_exists_iff:
  "0 < n \<Longrightarrow> (\<exists>s. run env n sites s) \<longleftrightarrow> snd (worker env sites) = None"
  using run_no_panic sequential_run by blast

lemma worker_report:
  "snd (worker env sites) = None \<Longrightarrow> mset (fst (worker env sites)) = owedFor env sites"
  by (induction sites) (auto split: prod.splits option.splits)

text \<open>Every result on the channel was found on a page that gave at least one link.\<close>

lemma probeLink_SourcePage:
  "probeLink env site l = Inr rs \<Longrightarrow> \<forall>r\<in>set rs. SourcePage r = site"
  by (auto simp: probeLink_def Let_def split: sum.splits if_splits)

lemma step_sourced:
  assumes "step env s s'"
    and "\<forall>r\<in>set (resultsChan s). extractLinks env (SourcePage r) \<noteq> []"
    and "\<forall>w\<in>set (workers s). \<forall>site ls. w = Scanning site ls \<longrightarrow>
           suffix ls (extractLinks env site)"
  shows "(\<forall>r\<in>set (resultsChan s'). extractLinks env (SourcePage r) \<noteq> [])
       \<and> (\<forall>w\<in>set (workers s'). \<forall>site ls. w = Scanning site ls \<longrightarrow>
           suffix ls (extractLinks env site))"
  using assms
proof (induction rule: step.induct)
  case (receive s i site rest)
  then show ?case
    using set_update_subset_insert [of "workers s" i "Scanning site (extractLinks env site)"]
    by auto
next
  case (probe s i site l ls rs)
  from probe(2,3) have mem: "Scanning site (l # ls) \<in> set (workers s)"
    by (metis nth_mem)
  with probe(6) have suf: "suffix (l # ls) (extractLinks env site)" by blast
  then have ne: "extractLinks env site \<noteq> []" by auto
  from suf have suf': "suffix ls (extractLinks env site)" by (rule suffix_ConsD)
  from probeLink_SourcePage [OF probe(4)] ne
  have "\<forall>r\<in>set rs. extractLinks env (SourcePage r) \<noteq> []" by simp
  with probe(5,6) suf' show ?case
    using set_update_subset_insert [of "workers s" i "Scanning site ls"]
    by auto
next
  case (crash s i site l ls p)
  then show ?case by simp
next
  case (next_site s i site)
  then show ?case
    using set_update_subset_insert [of "workers s" i Waiting] by auto
next
  case (return s i)
  then show ?case
    using set_update_subset_insert [of "workers s" i Returned] by auto
qed

lemma steps_sourced:
  assumes "(step env)\<^sup>*\<^sup>* (start n sites) s"
  shows "(\<forall>r\<in>set (resultsChan s). extractLinks env (SourcePage r) \<noteq> [])
       \<and> (\<forall>w\<in>set (workers s). \<forall>site ls. w = Scanning site ls \<longrightarrow>
           suffix ls (extractLinks env site))"
  using assms
proof (induction rule: rtranclp_induct)
  case base
  show ?case by (simp add: start_def)
next
  case (step y z)
  from step_sourced [OF step.hyps(2)] step.IH show ?case by blast
qed

text \<open>
  A schedule in which two workers scan two copies of the same site side by side: both
  probe their first link before either goes on.
\<close>

lemma interleaved_run:
  assumes n: "2 \<le> n"
    and links: "extractLinks env site = l # ls"
    and first: "probeLink env site l = Inr rs"
    and others: "snd (linkLoop env site ls) = None"
  shows "run env n [site, site]
           \<lparr>jobs = [], workers = replicate n Returned,
            resultsChan = rs @ rs @ fst (linkLoop env site ls) @ fst (linkLoop env site ls),
            panicked = False\<rparr>"
proof -
  define W where "W = replicate (n - 2) Waiting"
  from n have "n = Suc (Suc (n - 2))" by simp
  then have rep: "replicate n Waiting = Waiting # Waiting # W"
    unfolding W_def by (metis replicate_Suc)
  define s0 where "s0 = \<lparr>jobs = [site, site], workers = Waiting # Waiting # W,
                         resultsChan = [], panicked = False\<rparr>"
  define s1 where "s1 = \<lparr>jobs = [site], workers = Scanning site (l # ls) # Waiting # W,
                         resultsChan = [], panicked = False\<rparr>"
  define s2 where "s2 = \<lparr>jobs = [],
                         workers = Scanning site (l # ls) # Scanning site (l # ls) # W,
                         resultsChan = [], panicked = False\<rparr>"
  define s3 where "s3 = \<lparr>jobs = [], workers = Scanning site ls # Scanning site (l # ls) # W,
                         resultsChan = rs, panicked = False\<rparr>"
  define s4 where "s4 = \<lparr>jobs = [], workers = Scanning site ls # Scanning site ls # W,
                         resultsChan = rs @ rs, panicked = False\<rparr>"
  define s5 where "s5 = \<lparr>jobs = [], workers = Waiting # Scanning site ls # W,
                         resultsChan = rs @ rs @ fst (linkLoop env site ls), panicked = False\<rparr>"
  define s6 where "s6 = \<lparr>jobs = [], workers = Waiting # Waiting # W,
                         resultsChan = rs @ rs @ fst (linkLoop env site ls)
                                       @ fst (linkLoop env site ls), panicked = False\<rparr>"
  have s0: "start n [site, site] = s0" by (simp add: start_def s0_def rep)
  have "step env s0 (s0\<lparr>jobs := [site],
          workers := (workers s0)[0 := Scanning site (extractLinks env site)]\<rparr>)"
    by (intro step.receive) (simp_all add: s0_def)
  then have a1: "step env s0 s1" by (simp add: s0_def s1_def links)
  have "step env s1 (s1\<lparr>jobs := [],
          workers := (workers s1)[1 := Scanning site (extractLinks env site)]\<rparr>)"
    by (intro step.receive) (simp_all add: s1_def)
  then have a2: "step env s1 s2" by (simp add: s1_def s2_def links)
  have "step env s2 (s2\<lparr>workers := (workers s2)[0 := Scanning site ls],
          resultsChan := resultsChan s2 @ rs\<rparr>)"
    using first by (intro step.probe) (simp_all add: s2_def)
  then have a3: "step env s2 s3" by (simp add: s2_def s3_def)
  have "step env s3 (s3\<lparr>workers := (workers s3)[1 := Scanning site ls],
          resultsChan := resultsChan s3 @ rs\<rparr>)"
    using first by (intro step.probe) (simp_all add: s3_def)
  then have a4: "step env s3 s4" by (simp add: s3_def s4_def)
  have "(step env)\<^sup>*\<^sup>* s4 (s4\<lparr>workers := (workers s4)[0 := Waiting],
          resultsChan := resultsChan s4 @ fst (linkLoop env site ls)\<rparr>)"
    using others by (intro scan_run) (simp_all add: s4_def)
  then have a5: "(step env)\<^sup>*\<^sup>* s4 s5" by (simp add: s4_def s5_def)
  have "(step env)\<^sup>*\<^sup>* s5 (s5\<lparr>workers := (workers s5)[1 := Waiting],
          resultsChan := resultsChan s5 @ fst (linkLoop env site ls)\<rparr>)"
    using others by (intro scan_run) (simp_all add: s5_def)
  then have a6: "(step env)\<^sup>*\<^sup>* s5 s6" by (simp add: s5_def s6_def)
  have w6: "workers s6 = replicate 0 Returned @ replicate n Waiting"
    by (simp add: s6_def rep)
  have "(step env)\<^sup>*\<^sup>* s6 (s6\<lparr>workers := replicate (0 + n) Returned\<rparr>)"
    using w6 by (intro return_run) (simp_all add: s6_def)
  then have a7: "(step env)\<^sup>*\<^sup>* s6
       \<lparr>jobs = [], workers = replicate n Returned,
            resultsChan = rs @ rs @ fst (linkLoop env site ls) @ fst (linkLoop env site ls),
            panicked = False\<rparr>"
    by (simp add: s6_def)
  from a1 a2 a3 a4 have "(step env)\<^sup>*\<^sup>* s0 s4" by auto
  with a5 a6 a7 have "(step env)\<^sup>*\<^sup>* s0
       \<lparr>jobs = [], workers = replicate n Returned,
            resultsChan = rs @ rs @ fst (linkLoop env site ls) @ fst (linkLoop env site ls),
            panicked = False\<rparr>"
    by (meson rtranclp_trans)
  then show ?thesis by (simp add: run_def completed_def s0 list_all_iff)
qed

text \<open>Every completed run reports what one worker alone would have sent, in some order.\<close>

lemma run_report_sequential:
  assumes "run env n sites s" and "0 < n"
  shows "mset (resultsChan s) = mset (fst (worker env sites))"
  using run_report [OF assms] worker_report [OF run_no_panic [OF assms]] by simp

text \<open>The example environment at work.\<close>

lemma example_links:
  "extractLinks exampleEnv ''https://site.example/'' =
     [''https://foo.github.io'', ''https://site.example/about'',
      ''https://github.com/acme/widgets'']"
  "extractLinks exampleEnv ''https://down.example/'' = []"
  by (simp_all add: extractLinks_def IsAbs_def example_defs)

lemma example_probes:
  "probeLink exampleEnv ''https://site.example/'' ''https://foo.github.io'' =
     Inr [\<lparr>Type = ''github_pages'', Status = ''possible_takeover'',
           URL = ''https://foo.github.io'', SourcePage = ''https://site.example/''\<rparr>]"
  "probeLink exampleEnv ''https://site.example/'' ''https://site.example/about'' = Inr []"
  "probeLink exampleEnv ''https://site.example/'' ''https://github.com/acme/widgets'' =
     Inr [\<lparr>Type = ''repo'', Status = ''not_found'',
           URL = ''https://github.com/acme/widgets'', SourcePage = ''https://site.example/''\<rparr>]"
  by (simp_all add: probeLink_def detectService_def checkGitHub_def githubAPIRequest_def
      readBody_def Header_Set_def example_defs Split_def Trim_def)

lemma example_linkLoop:
  "linkLoop exampleEnv ''https://site.example/''
     [''https://site.example/about'', ''https://github.com/acme/widgets''] =
     ([\<lparr>Type = ''repo'', Status = ''not_found'',
        URL = ''https://github.com/acme/widgets'', SourcePage = ''https://site.example/''\<rparr>],
      None)"
  by (simp add: example_probes)

lemma example_worker:
  "worker exampleEnv [''https://down.example/'', ''https://site.example/''] =
     ([\<lparr>Type = ''github_pages'', Status = ''possible_takeover'',
        URL = ''https://foo.github.io'', SourcePage = ''https://site.example/''\<rparr>,
       \<lparr>Type = ''repo'', Status = ''not_found'',
        URL = ''https://github.com/acme/widgets'', SourcePage = ''https://site.example/''\<rparr>],
      None)"
  by (simp add: example_links example_probes)

lemma example_worker_twice:
  "worker exampleEnv [''https://site.example/'', ''https://site.example/''] =
     ([\<lparr>Type = ''github_pages'', Status = ''possible_takeover'',
        URL = ''https://foo.github.io'', SourcePage = ''https://site.example/''\<rparr>,
       \<lparr>Type = ''repo'', Status = ''not_found'',
        URL = ''https://github.com/acme/widgets'', SourcePage = ''https://site.example/''\<rparr>,
       \<lparr>Type = ''github_pages'', Status = ''possible_takeover'',
        URL = ''https://foo.github.io'', SourcePage = ''https://site.example/''\<rparr>,
       \<lparr>Type = ''repo'', Status = ''not_found'',
        URL = ''https://github.com/acme/widgets'', SourcePage = ''https://site.example/''\<rparr>],
      None)"
  by (simp add: example_links example_probes)

section \<open>The properties stated by the specification\<close>

text \<open>
  C1. The specification says that a gist link without a trailing id segment yields the
  verdict (gist, invalid_url) and that no metadata-API request is made for it. The code
  does otherwise: with no segment at all the verdict is (github, invalid_url), and with
  one segment the link is probed as a user through the users API.
\<close>

theorem gist_without_id_counterexample:
  "checkGitHub exampleEnv ''https://gist.github.com/''
     = ([], Inr \<lparr>Type = ''github'', Status = ''invalid_url'',
                 URL = ''https://gist.github.com/'', SourcePage = []\<rparr>)
   \<and> checkGitHub exampleEnv ''https://gist.github.com/alice''
     = ([Do \<lparr>Method = ''GET'', RequestURL = ''https://api.github.com/users/alice'',
             Header = [''User-Agent'' \<mapsto> ''Takeover-Scanner'']\<rparr>],
        Inr \<lparr>Type = ''user'', Status = ''exists'',
             URL = ''https://gist.github.com/alice'', SourcePage = []\<rparr>)"
  by (simp add: checkGitHub_def githubAPIRequest_def Header_Set_def example_defs
      Split_def Trim_def)

text \<open>
  C1, as the code has it. For every link whose text contains the gist host and not the
  pages host, that parses as a URL and whose path has fewer than two segments after
  trimming slashes: if the trimmed path is empty the probe returns (github, invalid_url)
  and makes no call at all; if the path has one segment and \<open>http.NewRequest\<close> builds the
  request for the users API at that segment, the probe sends that one request and returns
  a verdict of type user, whose status follows the answer as for every metadata-API
  request. No gists-API request is built in either case. (What happens when the request
  cannot be built is left to C5.)
\<close>

theorem gist_without_id:
  assumes "Contains link ''gist.github.com''" and "\<not> Contains link ''github.io''"
    and "url_Parse env link = Some u"
    and "length (Split (Trim (Path u) ''/'') ''/'') < 2"
    and "Trim (Path u) ''/'' = [] \<or>
         http_NewRequest env ''GET'' (''https://api.github.com/users/'' @ Trim (Path u) ''/'')
           = Some req0"
  shows "detectService env link = checkGitHub env link \<and>
         checkGitHub env link =
           (if Trim (Path u) ''/'' = [] then
              ([], Inr \<lparr>Type = ''github'', Status = ''invalid_url'', URL = link, SourcePage = []\<rparr>)
            else
              let req = (if githubToken env \<noteq> []
                         then Header_Set (Header_Set req0 ''User-Agent'' ''Takeover-Scanner'')
                                ''Authorization'' (''token '' @ githubToken env)
                         else Header_Set req0 ''User-Agent'' ''Takeover-Scanner'')
              in ([Do req],
                  Inr \<lparr>Type = ''user'',
                       Status = (case client_Do env req of
                                None \<Rightarrow> ''connection_error''
                              | Some resp \<Rightarrow>
                                  if StatusCode resp = 404 then ''not_found''
                                  else if StatusCode resp = 200 then ''exists''
                                  else if StatusCode resp = 403 \<or> StatusCode resp = 429
                                    then ''rate_limited''
                                  else ''error_'' @ Sprintf_d (StatusCode resp)),
                       URL = link, SourcePage = []\<rparr>))"
proof -
  have single: "Split (Trim (Path u) ''/'') ''/'' = [Trim (Path u) ''/'']"
    using assms(4) by (rule Split_single)
  show ?thesis
  proof (cases "Trim (Path u) ''/'' = []")
    case True
    with single assms(1-3) show ?thesis
      by (simp add: detectService_github checkGitHub_def Let_def)
  next
    case False
    with assms(5) have new: "http_NewRequest env ''GET''
        (''https://api.github.com/users/'' @ Trim (Path u) ''/'') = Some req0" by simp
    from single False assms(1-3) have "checkGitHub env link =
        githubAPIRequest env ''user''
          (''https://api.github.com/users/'' @ Trim (Path u) ''/'') link"
      by (simp add: checkGitHub_def Let_def)
    with githubAPIRequest_Some [OF new, of "''user''" link] False assms(1) show ?thesis
      by (simp add: detectService_github Let_def)
  qed
qed

theorem gist_without_id_witness:
  "Contains ''https://gist.github.com/'' ''gist.github.com''
   \<and> \<not> Contains ''https://gist.github.com/'' ''github.io''
   \<and> url_Parse exampleEnv ''https://gist.github.com/''
       = Some \<lparr>Scheme = ''https'', Host = ''gist.github.com'', Path = ''/''\<rparr>
   \<and> length (Split (Trim ''/'' ''/'') ''/'') < 2
   \<and> Trim ''/'' ''/'' = []
   \<and> detectService exampleEnv ''https://gist.github.com/''
       = ([], Inr \<lparr>Type = ''github'', Status = ''invalid_url'',
                   URL = ''https://gist.github.com/'', SourcePage = []\<rparr>)
   \<and> Contains ''https://gist.github.com/alice'' ''gist.github.com''
   \<and> \<not> Contains ''https://gist.github.com/alice'' ''github.io''
   \<and> url_Parse exampleEnv ''https://gist.github.com/alice''
       = Some \<lparr>Scheme = ''https'', Host = ''gist.github.com'', Path = ''/alice''\<rparr>
   \<and> length (Split (Trim ''/alice'' ''/'') ''/'') < 2
   \<and> http_NewRequest exampleEnv ''GET'' (''https://api.github.com/users/'' @ Trim ''/alice'' ''/'')
       = Some \<lparr>Method = ''GET'', RequestURL = ''https://api.github.com/users/alice'',
               Header = Map.empty\<rparr>
   \<and> detectService exampleEnv ''https://gist.github.com/alice''
       = ([Do \<lparr>Method = ''GET'', RequestURL = ''https://api.github.com/users/alice'',
               Header = [''User-Agent'' \<mapsto> ''Takeover-Scanner'']\<rparr>],
          Inr \<lparr>Type = ''user'', Status = ''exists'',
               URL = ''https://gist.github.com/alice'', SourcePage = []\<rparr>)"
proof -
  have a: "Contains ''https://gist.github.com/'' ''gist.github.com''" by simp
  have b: "\<not> Contains ''https://gist.github.com/'' ''github.io''" by simp
  have c: "url_Parse exampleEnv ''https://gist.github.com/''
       = Some \<lparr>Scheme = ''https'', Host = ''gist.github.com'', Path = ''/''\<rparr>"
    by (simp add: example_defs)
  have d: "length (Split (Trim (Path \<lparr>Scheme = ''https'', Host = ''gist.github.com'',
              Path = ''/''\<rparr>) ''/'') ''/'') < 2"
    by (simp add: Split_def Trim_def)
  have e: "Trim ''/'' ''/'' = []" by (simp add: Trim_def)
  have e': "Trim (Path \<lparr>Scheme = ''https'', Host = ''gist.github.com'', Path = ''/''\<rparr>) ''/'' = []
      \<or> http_NewRequest exampleEnv ''GET''
           (''https://api.github.com/users/'' @
            Trim (Path \<lparr>Scheme = ''https'', Host = ''gist.github.com'', Path = ''/''\<rparr>) ''/'')
          = Some \<lparr>Method = ''GET'', RequestURL = [], Header = Map.empty\<rparr>"
    by (simp add: e)
  have first: "detectService exampleEnv ''https://gist.github.com/''
       = ([], Inr \<lparr>Type = ''github'', Status = ''invalid_url'',
                   URL = ''https://gist.github.com/'', SourcePage = []\<rparr>)"
    using gist_without_id [OF a b c d e'] by (simp add: e)
  have a2: "Contains ''https://gist.github.com/alice'' ''gist.github.com''" by simp
  have b2: "\<not> Contains ''https://gist.github.com/alice'' ''github.io''" by simp
  have c2: "url_Parse exampleEnv ''https://gist.github.com/alice''
       = Some \<lparr>Scheme = ''https'', Host = ''gist.github.com'', Path = ''/alice''\<rparr>"
    by (simp add: example_defs)
  have t2: "Trim ''/alice'' ''/'' = ''alice''" by (simp add: Trim_def)
  have d2: "length (Split (Trim (Path \<lparr>Scheme = ''https'', Host = ''gist.github.com'',
              Path = ''/alice''\<rparr>) ''/'') ''/'') < 2"
    by (simp add: Split_def t2)
  have n2: "http_NewRequest exampleEnv ''GET'' ''https://api.github.com/users/alice''
       = Some \<lparr>Method = ''GET'', RequestURL = ''https://api.github.com/users/alice'',
               Header = Map.empty\<rparr>"
    by (simp add: example_defs)
  have e2: "Trim (Path \<lparr>Scheme = ''https'', Host = ''gist.github.com'', Path = ''/alice''\<rparr>) ''/''
        = []
      \<or> http_NewRequest exampleEnv ''GET''
           (''https://api.github.com/users/'' @
            Trim (Path \<lparr>Scheme = ''https'', Host = ''gist.github.com'', Path = ''/alice''\<rparr>) ''/'')
          = Some \<lparr>Method = ''GET'', RequestURL = ''https://api.github.com/users/alice'',
               Header = Map.empty\<rparr>"
    using n2 by (simp add: t2)
  have tok: "githubToken exampleEnv = []" by (simp add: exampleEnv_def)
  have ans: "client_Do exampleEnv
       \<lparr>Method = ''GET'', RequestURL = ''https://api.github.com/users/alice'',
        Header = [''User-Agent'' \<mapsto> ''Takeover-Scanner'']\<rparr>
     = Some \<lparr>StatusCode = 200, Body = ''{}'', BodyError = False,
             Request_URL = \<lparr>Scheme = ''https'', Host = ''api.github.com'',
                            Path = ''/users/alice''\<rparr>\<rparr>"
    by (simp add: exampleEnv_def)
  have second: "detectService exampleEnv ''https://gist.github.com/alice''
       = ([Do \<lparr>Method = ''GET'', RequestURL = ''https://api.github.com/users/alice'',
               Header = [''User-Agent'' \<mapsto> ''Takeover-Scanner'']\<rparr>],
          Inr \<lparr>Type = ''user'', Status = ''exists'',
               URL = ''https://gist.github.com/alice'', SourcePage = []\<rparr>)"
    using gist_without_id [OF a2 b2 c2 d2 e2] by (simp add: t2 tok Header_Set_def ans)
  from a b c d e first a2 b2 c2 d2 n2 second show ?thesis by (simp add: t2)
qed

text \<open>
  C2. Every link whose text contains \<open>github.io\<close> is classified as \<open>github_pages\<close>, never
  as \<open>repo\<close>, whatever its path: the pages test comes before the tests on the path
  segments. A link is a URL, on which \<open>url.Parse\<close> succeeds; the witness has two path
  segments, which the later tests would route to the repository API.
\<close>

theorem pages_precedence:
  assumes "Contains link ''github.io''" and "url_Parse env link = Some u"
  shows "\<exists>r. snd (detectService env link) = Inr r \<and> Type r = ''github_pages''
              \<and> Type r \<noteq> ''repo''"
  using assms by (simp add: detectService_github checkGitHub_def split: option.splits)

theorem pages_precedence_witness:
  "Contains ''https://acme.github.io/widgets/docs'' ''github.io''
   \<and> url_Parse exampleEnv ''https://acme.github.io/widgets/docs''
       = Some \<lparr>Scheme = ''https'', Host = ''acme.github.io'', Path = ''/widgets/docs''\<rparr>
   \<and> length (Split (Trim ''/widgets/docs'' ''/'') ''/'') = 2
   \<and> (\<exists>r. snd (detectService exampleEnv ''https://acme.github.io/widgets/docs'') = Inr r
          \<and> Type r = ''github_pages'' \<and> Type r \<noteq> ''repo'')"
proof -
  have c: "Contains ''https://acme.github.io/widgets/docs'' ''github.io''" by simp
  have p: "url_Parse exampleEnv ''https://acme.github.io/widgets/docs''
       = Some \<lparr>Scheme = ''https'', Host = ''acme.github.io'', Path = ''/widgets/docs''\<rparr>"
    by (simp add: example_defs)
  have l: "length (Split (Trim ''/widgets/docs'' ''/'') ''/'') = 2"
    by (simp add: Split_def Trim_def)
  from pages_precedence [OF c p] c p l show ?thesis by blast
qed



text \<open>
  C4. A link whose verdict has type \<open>unknown\<close> caused no outbound call (no prober ran:
  the verdict is the dispatcher's own \<open>skipped\<close>), the worker sends nothing for it, and
  in every state a run can reach, with any number of workers, no result on the results
  channel has type \<open>unknown\<close>; so no row of the report has it.
\<close>

theorem unknown_never_probed_nor_reported:
  assumes "snd (detectService env l) = Inr r" and "Type r = ''unknown''"
    and "(step env)\<^sup>*\<^sup>* (start n sites) s"
  shows "fst (detectService env l) = [] \<and> probeLink env site l = Inr []
       \<and> (\<forall>v\<in>set (resultsChan s). Type v \<noteq> ''unknown'')
       \<and> (\<forall>row\<in>set (csvRows (resultsChan s)). hd row \<noteq> ''unknown'')"
proof -
  from detectService_unknown [OF assms(1,2)]
  have "fst (detectService env l) = []" and "probeLink env site l = Inr []"
    by (simp_all add: probeLink_def)
  moreover from steps_known [OF assms(3)]
  have "\<forall>v\<in>set (resultsChan s). Type v \<noteq> ''unknown''"
    by (simp add: start_def)
  moreover from this have "\<forall>row\<in>set (csvRows (resultsChan s)). hd row \<noteq> ''unknown''"
    by (auto simp: csvRows_def)
  ultimately show ?thesis by blast
qed

theorem unknown_never_probed_nor_reported_witness:
  "snd (detectService exampleEnv ''https://site.example/about'')
     = Inr \<lparr>Type = ''unknown'', Status = ''skipped'',
            URL = ''https://site.example/about'', SourcePage = []\<rparr>
   \<and> (step exampleEnv)\<^sup>*\<^sup>* (start 1 [''https://down.example/'', ''https://site.example/''])
        \<lparr>jobs = [], workers = [Returned],
         resultsChan =
           [\<lparr>Type = ''github_pages'', Status = ''possible_takeover'',
             URL = ''https://foo.github.io'', SourcePage = ''https://site.example/''\<rparr>,
            \<lparr>Type = ''repo'', Status = ''not_found'',
             URL = ''https://github.com/acme/widgets'', SourcePage = ''https://site.example/''\<rparr>],
         panicked = False\<rparr>
   \<and> fst (detectService exampleEnv ''https://site.example/about'') = []
   \<and> probeLink exampleEnv ''https://site.example/'' ''https://site.example/about'' = Inr []
   \<and> csvRows
        [\<lparr>Type = ''github_pages'', Status = ''possible_takeover'',
          URL = ''https://foo.github.io'', SourcePage = ''https://site.example/''\<rparr>,
         \<lparr>Type = ''repo'', Status = ''not_found'',
          URL = ''https://github.com/acme/widgets'', SourcePage = ''https://site.example/''\<rparr>]
      = [[''github_pages'', ''possible_takeover'', ''https://foo.github.io'',
          ''https://site.example/''],
         [''repo'', ''not_found'', ''https://github.com/acme/widgets'',
          ''https://site.example/'']]"
proof -
  have a: "snd (detectService exampleEnv ''https://site.example/about'')
     = Inr \<lparr>Type = ''unknown'', Status = ''skipped'',
            URL = ''https://site.example/about'', SourcePage = []\<rparr>"
    by (simp add: detectService_def)
  have b: "Type \<lparr>Type = ''unknown'', Status = ''skipped'',
            URL = ''https://site.example/about'', SourcePage = []\<rparr> = ''unknown''"
    by simp
  have "run exampleEnv 1 [''https://down.example/'', ''https://site.example/'']
          \<lparr>jobs = [], workers = replicate 1 Returned,
           resultsChan = fst (worker exampleEnv
             [''https://down.example/'', ''https://site.example/'']),
           panicked = False\<rparr>"
  proof (rule sequential_run)
    show "0 < (1::nat)" by simp
    show "snd (worker exampleEnv [''https://down.example/'', ''https://site.example/'']) = None"
      by (simp only: example_worker snd_conv)
  qed
  then have c: "(step exampleEnv)\<^sup>*\<^sup>*
        (start 1 [''https://down.example/'', ''https://site.example/''])
        \<lparr>jobs = [], workers = [Returned],
         resultsChan =
           [\<lparr>Type = ''github_pages'', Status = ''possible_takeover'',
             URL = ''https://foo.github.io'', SourcePage = ''https://site.example/''\<rparr>,
            \<lparr>Type = ''repo'', Status = ''not_found'',
             URL = ''https://github.com/acme/widgets'', SourcePage = ''https://site.example/''\<rparr>],
         panicked = False\<rparr>"
    by (simp only: example_worker fst_conv run_def) simp
  from unknown_never_probed_nor_reported [OF a b c, of "''https://site.example/''"] a c
  show ?thesis by (simp add: csvRows_def)
qed

text \<open>
  C5. The specification says that the per-link probing path never panics, on any
  string. The code panics on a code-forge link that \<open>url.Parse\<close> rejects (the nil URL is dereferenced), and
  on a code-forge link whose path makes an API URL that \<open>http.NewRequest\<close> rejects (the
  nil request is dereferenced). The Chrome-extension prober, on the same kind of input,
  checks the error and returns \<open>invalid_url\<close>.
\<close>

theorem probing_path_panics:
  "detectService exampleEnv ''https://github.com/%zz'' = ([], Inl NilPointerDereference)
   \<and> detectService exampleEnv ''https://github.com/a%25zz/b'' = ([], Inl NilPointerDereference)
   \<and> checkChromeExtension exampleEnv ''https://chrome.google.com/webstore/detail/%zz''
       = ([], Inr \<lparr>Type = ''chrome_ext'', Status = ''invalid_url'',
                   URL = ''https://chrome.google.com/webstore/detail/%zz'', SourcePage = []\<rparr>)"
  by (simp add: detectService_def checkGitHub_def githubAPIRequest_def checkChromeExtension_def
      Header_Set_def example_defs Split_def Trim_def)

text \<open>
  C6. The specification says that classification is total: every link is assigned exactly
  one kind. On the link \<open>https://github.com/a%25zz/b\<close> no kind is assigned, whatever the
  upstream answers and whatever credential is configured: the probe panics before it
  returns a verdict. The same holds on a code-forge link that \<open>url.Parse\<close> rejects, where
  the panic comes before any test on the path. (Two facts stand beside the defect: the
  type of a verdict, and whether there is one, never depends on the upstream or the
  credential, by \<open>detectService_kind_independent\<close>; and a verdict is returned whenever
  the two library calls succeed, by \<open>detectService_returns\<close>. The tests that fix the
  type read the whole text of the link and the number of path segments.)
\<close>

theorem classification_not_total:
  "\<forall>g d t. snd (detectService (exampleEnv\<lparr>client_Get := g, client_Do := d, githubToken := t\<rparr>)
                 ''https://github.com/a%25zz/b'') = Inl NilPointerDereference
           \<and> snd (detectService (exampleEnv\<lparr>client_Get := g, client_Do := d, githubToken := t\<rparr>)
                 ''https://github.com/%zz'') = Inl NilPointerDereference"
  by (simp add: detectService_def checkGitHub_def githubAPIRequest_def example_defs
      Split_def Trim_def)

text \<open>
  C7. Two runs of the metadata-API probe on the same link that differ only in the
  configured credential, and to whose calls the upstream gives the same answers, return
  the same verdict (or end in the same panic); the calls of the two runs pair up, and
  paired requests have the same method, the same URL and the same headers apart from
  \<open>Authorization\<close>.
\<close>

theorem credential_noninterference:
  assumes "map (answer env) (fst (githubAPIRequest (env\<lparr>githubToken := t1\<rparr>) entityType api link))
         = map (answer env) (fst (githubAPIRequest (env\<lparr>githubToken := t2\<rparr>) entityType api link))"
  shows "snd (githubAPIRequest (env\<lparr>githubToken := t1\<rparr>) entityType api link)
         = snd (githubAPIRequest (env\<lparr>githubToken := t2\<rparr>) entityType api link)
       \<and> list_all2
           (\<lambda>c1 c2. case (c1, c2) of
               (Do req1, Do req2) \<Rightarrow>
                  Method req1 = Method req2 \<and> RequestURL req1 = RequestURL req2
                  \<and> (Header req1)(''Authorization'' := None)
                      = (Header req2)(''Authorization'' := None)
             | _ \<Rightarrow> False)
           (fst (githubAPIRequest (env\<lparr>githubToken := t1\<rparr>) entityType api link))
           (fst (githubAPIRequest (env\<lparr>githubToken := t2\<rparr>) entityType api link))"
proof (cases "http_NewRequest env ''GET'' api")
  case None
  have "githubAPIRequest (env\<lparr>githubToken := t\<rparr>) entityType api link
          = ([], Inl NilPointerDereference)" for t
    by (rule githubAPIRequest_None) (simp add: None)
  then show ?thesis by simp
next
  case (Some req0)
  define base where "base = Header_Set req0 ''User-Agent'' ''Takeover-Scanner''"
  define rq where
    "rq t = (if t \<noteq> [] then Header_Set base ''Authorization'' (''token '' @ t) else base)"
    for t :: string
  have run: "githubAPIRequest (env\<lparr>githubToken := t\<rparr>) entityType api link =
              ([Do (rq t)],
               Inr \<lparr>Type = entityType,
                    Status = (case client_Do env (rq t) of
                       None \<Rightarrow> ''connection_error''
                     | Some resp \<Rightarrow>
                         if StatusCode resp = 404 then ''not_found''
                         else if StatusCode resp = 200 then ''exists''
                         else if StatusCode resp = 403 \<or> StatusCode resp = 429
                           then ''rate_limited''
                         else ''error_'' @ Sprintf_d (StatusCode resp)),
                    URL = link, SourcePage = []\<rparr>)" for t
  proof -
    have "http_NewRequest (env\<lparr>githubToken := t\<rparr>) ''GET'' api = Some req0"
      by (simp add: Some)
    from githubAPIRequest_Some [OF this, of entityType link] show ?thesis
      by (simp add: rq_def base_def)
  qed
  from assms have same: "client_Do env (rq t1) = client_Do env (rq t2)"
    by (simp add: run answer_def)
  have hdr: "(Header (rq t))(''Authorization'' := None) = (Header base)(''Authorization'' := None)"
    for t by (simp add: rq_def Header_Set_def)
  have oth: "Method (rq t) = Method base \<and> RequestURL (rq t) = RequestURL base" for t
    by (simp add: rq_def Header_Set_def)
  show ?thesis by (simp add: run same hdr oth)
qed

theorem credential_noninterference_witness:
  "map (answer exampleEnv)
     (fst (githubAPIRequest (exampleEnv\<lparr>githubToken := []\<rparr>) ''repo''
        ''https://api.github.com/repos/acme/widgets'' ''https://github.com/acme/widgets''))
   = map (answer exampleEnv)
     (fst (githubAPIRequest (exampleEnv\<lparr>githubToken := ''ghp_example''\<rparr>) ''repo''
        ''https://api.github.com/repos/acme/widgets'' ''https://github.com/acme/widgets''))
   \<and> githubAPIRequest (exampleEnv\<lparr>githubToken := []\<rparr>) ''repo''
        ''https://api.github.com/repos/acme/widgets'' ''https://github.com/acme/widgets''
     = ([Do \<lparr>Method = ''GET'', RequestURL = ''https://api.github.com/repos/acme/widgets'',
             Header = [''User-Agent'' \<mapsto> ''Takeover-Scanner'']\<rparr>],
        Inr \<lparr>Type = ''repo'', Status = ''not_found'',
             URL = ''https://github.com/acme/widgets'', SourcePage = []\<rparr>)
   \<and> githubAPIRequest (exampleEnv\<lparr>githubToken := ''ghp_example''\<rparr>) ''repo''
        ''https://api.github.com/repos/acme/widgets'' ''https://github.com/acme/widgets''
     = ([Do \<lparr>Method = ''GET'', RequestURL = ''https://api.github.com/repos/acme/widgets'',
             Header = [''User-Agent'' \<mapsto> ''Takeover-Scanner'',
                       ''Authorization'' \<mapsto> ''token ghp_example'']\<rparr>],
        Inr \<lparr>Type = ''repo'', Status = ''not_found'',
             URL = ''https://github.com/acme/widgets'', SourcePage = []\<rparr>)"
proof -
  have a: "githubAPIRequest (exampleEnv\<lparr>githubToken := []\<rparr>) ''repo''
        ''https://api.github.com/repos/acme/widgets'' ''https://github.com/acme/widgets''
     = ([Do \<lparr>Method = ''GET'', RequestURL = ''https://api.github.com/repos/acme/widgets'',
             Header = [''User-Agent'' \<mapsto> ''Takeover-Scanner'']\<rparr>],
        Inr \<lparr>Type = ''repo'', Status = ''not_found'',
             URL = ''https://github.com/acme/widgets'', SourcePage = []\<rparr>)"
    by (simp add: githubAPIRequest_def Header_Set_def example_defs)
  have b: "fst (githubAPIRequest (exampleEnv\<lparr>githubToken := ''ghp_example''\<rparr>) ''repo''
        ''https://api.github.com/repos/acme/widgets'' ''https://github.com/acme/widgets'')
     = [Do \<lparr>Method = ''GET'', RequestURL = ''https://api.github.com/repos/acme/widgets'',
             Header = [''User-Agent'' \<mapsto> ''Takeover-Scanner'',
                       ''Authorization'' \<mapsto> ''token ghp_example'']\<rparr>]"
    by (simp add: githubAPIRequest_def Header_Set_def example_defs)
  have h: "map (answer exampleEnv)
     (fst (githubAPIRequest (exampleEnv\<lparr>githubToken := []\<rparr>) ''repo''
        ''https://api.github.com/repos/acme/widgets'' ''https://github.com/acme/widgets''))
   = map (answer exampleEnv)
     (fst (githubAPIRequest (exampleEnv\<lparr>githubToken := ''ghp_example''\<rparr>) ''repo''
        ''https://api.github.com/repos/acme/widgets'' ''https://github.com/acme/widgets''))"
    unfolding a b by (simp add: answer_def exampleEnv_def)
  from credential_noninterference [OF h] have
    "snd (githubAPIRequest (exampleEnv\<lparr>githubToken := ''ghp_example''\<rparr>) ''repo''
        ''https://api.github.com/repos/acme/widgets'' ''https://github.com/acme/widgets'')
     = Inr \<lparr>Type = ''repo'', Status = ''not_found'',
             URL = ''https://github.com/acme/widgets'', SourcePage = []\<rparr>"
    by (simp add: a)
  with b have "githubAPIRequest (exampleEnv\<lparr>githubToken := ''ghp_example''\<rparr>) ''repo''
        ''https://api.github.com/repos/acme/widgets'' ''https://github.com/acme/widgets''
     = ([Do \<lparr>Method = ''GET'', RequestURL = ''https://api.github.com/repos/acme/widgets'',
             Header = [''User-Agent'' \<mapsto> ''Takeover-Scanner'',
                       ''Authorization'' \<mapsto> ''token ghp_example'']\<rparr>],
        Inr \<lparr>Type = ''repo'', Status = ''not_found'',
             URL = ''https://github.com/acme/widgets'', SourcePage = []\<rparr>)"
    by (simp add: prod_eq_iff)
  with h a show ?thesis by simp
qed

text \<open>
  C8. The specification says that the pages prober returns \<open>connection_error\<close> when the
  fetch fails at the transport level, and \<open>ok\<close> only for a body that was fetched. The code
  tells a failed fetch from a good one only by the error of \<open>httpClient.Get\<close>: when the
  connection breaks while the body is in transit, \<open>readBody\<close> discards the read error and
  the verdict is drawn from the bytes that arrived. Here the page breaks off after nine
  bytes and the verdict is \<open>ok\<close>.
\<close>

theorem pages_probe_counterexample:
  "client_Get exampleEnv ''https://slow.github.io''
     = Some \<lparr>StatusCode = 200, Body = ''<html><bo'', BodyError = True,
             Request_URL = \<lparr>Scheme = ''https'', Host = ''slow.github.io'', Path = []\<rparr>\<rparr>
   \<and> detectService exampleEnv ''https://slow.github.io''
     = ([Get ''https://slow.github.io''],
        Inr \<lparr>Type = ''github_pages'', Status = ''ok'',
             URL = ''https://slow.github.io'', SourcePage = []\<rparr>)"
  by (simp add: detectService_def checkGitHub_def readBody_def example_defs)

text \<open>
  C8, as the code has it. For every link whose text contains \<open>github.io\<close> (a URL, on
  which \<open>url.Parse\<close> succeeds), the prober makes one call, a GET of the link itself. It
  returns \<open>connection_error\<close> exactly when \<open>httpClient.Get\<close> returns an error; otherwise it
  returns \<open>possible_takeover\<close> when the bytes read from the body, up to its end or up to a
  read error, contain "There isn't a GitHub Pages site here.", and \<open>ok\<close> when they do not.
\<close>

theorem pages_probe:
  assumes "Contains link ''github.io''" and "url_Parse env link = Some u"
  shows "detectService env link = checkGitHub env link \<and>
         checkGitHub env link =
           ([Get link],
            Inr \<lparr>Type = ''github_pages'',
                 Status = (case client_Get env link of
                             None \<Rightarrow> ''connection_error''
                           | Some resp \<Rightarrow>
                               if Contains (Body resp) ''There isn't a GitHub Pages site here.''
                               then ''possible_takeover'' else ''ok''),
                 URL = link, SourcePage = []\<rparr>)"
  using assms
  by (simp add: detectService_github checkGitHub_def readBody_def split: option.splits)

theorem pages_probe_witness:
  "Contains ''https://foo.github.io'' ''github.io''
   \<and> url_Parse exampleEnv ''https://foo.github.io''
       = Some \<lparr>Scheme = ''https'', Host = ''foo.github.io'', Path = []\<rparr>
   \<and> detectService exampleEnv ''https://foo.github.io''
       = ([Get ''https://foo.github.io''],
          Inr \<lparr>Type = ''github_pages'', Status = ''possible_takeover'',
               URL = ''https://foo.github.io'', SourcePage = []\<rparr>)
   \<and> Contains ''https://acme.github.io/widgets/docs'' ''github.io''
   \<and> url_Parse exampleEnv ''https://acme.github.io/widgets/docs''
       = Some \<lparr>Scheme = ''https'', Host = ''acme.github.io'', Path = ''/widgets/docs''\<rparr>
   \<and> client_Get exampleEnv ''https://acme.github.io/widgets/docs'' = None
   \<and> detectService exampleEnv ''https://acme.github.io/widgets/docs''
       = ([Get ''https://acme.github.io/widgets/docs''],
          Inr \<lparr>Type = ''github_pages'', Status = ''connection_error'',
               URL = ''https://acme.github.io/widgets/docs'', SourcePage = []\<rparr>)"
proof -
  have c: "Contains ''https://foo.github.io'' ''github.io''" by simp
  have p: "url_Parse exampleEnv ''https://foo.github.io''
       = Some \<lparr>Scheme = ''https'', Host = ''foo.github.io'', Path = []\<rparr>"
    by (simp add: example_defs)
  have g: "client_Get exampleEnv ''https://foo.github.io'' =
     Some \<lparr>StatusCode = 404, Body = ''<p>There isn't a GitHub Pages site here.</p>'',
           BodyError = False,
           Request_URL = \<lparr>Scheme = ''https'', Host = ''foo.github.io'', Path = []\<rparr>\<rparr>"
    by (simp add: example_defs)
  have first: "detectService exampleEnv ''https://foo.github.io''
       = ([Get ''https://foo.github.io''],
          Inr \<lparr>Type = ''github_pages'', Status = ''possible_takeover'',
               URL = ''https://foo.github.io'', SourcePage = []\<rparr>)"
    using pages_probe [OF c p] by (simp add: g)
  have c2: "Contains ''https://acme.github.io/widgets/docs'' ''github.io''" by simp
  have p2: "url_Parse exampleEnv ''https://acme.github.io/widgets/docs''
       = Some \<lparr>Scheme = ''https'', Host = ''acme.github.io'', Path = ''/widgets/docs''\<rparr>"
    by (simp add: example_defs)
  have g2: "client_Get exampleEnv ''https://acme.github.io/widgets/docs'' = None"
    by (simp add: exampleEnv_def)
  have second: "detectService exampleEnv ''https://acme.github.io/widgets/docs''
       = ([Get ''https://acme.github.io/widgets/docs''],
          Inr \<lparr>Type = ''github_pages'', Status = ''connection_error'',
               URL = ''https://acme.github.io/widgets/docs'', SourcePage = []\<rparr>)"
    using pages_probe [OF c2 p2] by (simp add: g2)
  from c p first c2 p2 g2 second show ?thesis by simp
qed

text \<open>
  C9. For the same sites and the same upstream, a run with one worker completes exactly
  when a run with fifty workers can, and any two completed runs, one with one worker and
  one with fifty, under any interleaving, deliver the same multiset of results, hence the
  same multiset of report rows.
\<close>

theorem report_independent_of_worker_count:
  "((\<exists>s. run env 1 sites s) \<longleftrightarrow> (\<exists>s. run env 50 sites s))
   \<and> (run env 1 sites s1 \<and> run env 50 sites s50 \<longrightarrow>
        mset (resultsChan s1) = mset (resultsChan s50)
        \<and> mset (csvRows (resultsChan s1)) = mset (csvRows (resultsChan s50)))"
proof -
  have "(\<exists>s. run env 1 sites s) \<longleftrightarrow> (\<exists>s. run env 50 sites s)"
    by (simp add: run_exists_iff)
  moreover have "mset (resultsChan s1) = mset (resultsChan s50)"
    if "run env 1 sites s1" and "run env 50 sites s50"
    using run_report [OF that(1)] run_report [OF that(2)] by simp
  moreover have "mset (csvRows (resultsChan s1)) = mset (csvRows (resultsChan s50))"
    if "mset (resultsChan s1) = mset (resultsChan s50)"
    unfolding csvRows_def mset_map that ..
  ultimately show ?thesis by blast
qed

theorem report_independent_of_worker_count_witness:
  "run exampleEnv 1 [''https://site.example/'', ''https://site.example/'']
     \<lparr>jobs = [], workers = replicate 1 Returned,
      resultsChan =
        [\<lparr>Type = ''github_pages'', Status = ''possible_takeover'',
          URL = ''https://foo.github.io'', SourcePage = ''https://site.example/''\<rparr>,
         \<lparr>Type = ''repo'', Status = ''not_found'',
          URL = ''https://github.com/acme/widgets'', SourcePage = ''https://site.example/''\<rparr>,
         \<lparr>Type = ''github_pages'', Status = ''possible_takeover'',
          URL = ''https://foo.github.io'', SourcePage = ''https://site.example/''\<rparr>,
         \<lparr>Type = ''repo'', Status = ''not_found'',
          URL = ''https://github.com/acme/widgets'', SourcePage = ''https://site.example/''\<rparr>],
      panicked = False\<rparr>
   \<and> run exampleEnv 50 [''https://site.example/'', ''https://site.example/'']
     \<lparr>jobs = [], workers = replicate 50 Returned,
      resultsChan =
        [\<lparr>Type = ''github_pages'', Status = ''possible_takeover'',
          URL = ''https://foo.github.io'', SourcePage = ''https://site.example/''\<rparr>,
         \<lparr>Type = ''github_pages'', Status = ''possible_takeover'',
          URL = ''https://foo.github.io'', SourcePage = ''https://site.example/''\<rparr>,
         \<lparr>Type = ''repo'', Status = ''not_found'',
          URL = ''https://github.com/acme/widgets'', SourcePage = ''https://site.example/''\<rparr>,
         \<lparr>Type = ''repo'', Status = ''not_found'',
          URL = ''https://github.com/acme/widgets'', SourcePage = ''https://site.example/''\<rparr>],
      panicked = False\<rparr>
   \<and> [\<lparr>Type = ''github_pages'', Status = ''possible_takeover'',
          URL = ''https://foo.github.io'', SourcePage = ''https://site.example/''\<rparr>,
         \<lparr>Type = ''repo'', Status = ''not_found'',
          URL = ''https://github.com/acme/widgets'', SourcePage = ''https://site.example/''\<rparr>,
         \<lparr>Type = ''github_pages'', Status = ''possible_takeover'',
          URL = ''https://foo.github.io'', SourcePage = ''https://site.example/''\<rparr>,
         \<lparr>Type = ''repo'', Status = ''not_found'',
          URL = ''https://github.com/acme/widgets'', SourcePage = ''https://site.example/''\<rparr>]
     \<noteq> [\<lparr>Type = ''github_pages'', Status = ''possible_takeover'',
          URL = ''https://foo.github.io'', SourcePage = ''https://site.example/''\<rparr>,
         \<lparr>Type = ''github_pages'', Status = ''possible_takeover'',
          URL = ''https://foo.github.io'', SourcePage = ''https://site.example/''\<rparr>,
         \<lparr>Type = ''repo'', Status = ''not_found'',
          URL = ''https://github.com/acme/widgets'', SourcePage = ''https://site.example/''\<rparr>,
         \<lparr>Type = ''repo'', Status = ''not_found'',
          URL = ''https://github.com/acme/widgets'', SourcePage = ''https://site.example/''\<rparr>]
   \<and> mset [\<lparr>Type = ''github_pages'', Status = ''possible_takeover'',
          URL = ''https://foo.github.io'', SourcePage = ''https://site.example/''\<rparr>,
         \<lparr>Type = ''repo'', Status = ''not_found'',
          URL = ''https://github.com/acme/widgets'', SourcePage = ''https://site.example/''\<rparr>,
         \<lparr>Type = ''github_pages'', Status = ''possible_takeover'',
          URL = ''https://foo.github.io'', SourcePage = ''https://site.example/''\<rparr>,
         \<lparr>Type = ''repo'', Status = ''not_found'',
          URL = ''https://github.com/acme/widgets'', SourcePage = ''https://site.example/''\<rparr>]
     = mset [\<lparr>Type = ''github_pages'', Status = ''possible_takeover'',
          URL = ''https://foo.github.io'', SourcePage = ''https://site.example/''\<rparr>,
         \<lparr>Type = ''github_pages'', Status = ''possible_takeover'',
          URL = ''https://foo.github.io'', SourcePage = ''https://site.example/''\<rparr>,
         \<lparr>Type = ''repo'', Status = ''not_found'',
          URL = ''https://github.com/acme/widgets'', SourcePage = ''https://site.example/''\<rparr>,
         \<lparr>Type = ''repo'', Status = ''not_found'',
          URL = ''https://github.com/acme/widgets'', SourcePage = ''https://site.example/''\<rparr>]"
proof -
  have r1: "run exampleEnv 1 [''https://site.example/'', ''https://site.example/'']
     \<lparr>jobs = [], workers = replicate 1 Returned,
      resultsChan =
        [\<lparr>Type = ''github_pages'', Status = ''possible_takeover'',
          URL = ''https://foo.github.io'', SourcePage = ''https://site.example/''\<rparr>,
         \<lparr>Type = ''repo'', Status = ''not_found'',
          URL = ''https://github.com/acme/widgets'', SourcePage = ''https://site.example/''\<rparr>,
         \<lparr>Type = ''github_pages'', Status = ''possible_takeover'',
          URL = ''https://foo.github.io'', SourcePage = ''https://site.example/''\<rparr>,
         \<lparr>Type = ''repo'', Status = ''not_found'',
          URL = ''https://github.com/acme/widgets'', SourcePage = ''https://site.example/''\<rparr>],
      panicked = False\<rparr>"
    using sequential_run [of 1 exampleEnv "[''https://site.example/'', ''https://site.example/'']"]
    by (simp only: example_worker_twice fst_conv snd_conv)
  have r50: "run exampleEnv 50 [''https://site.example/'', ''https://site.example/'']
     \<lparr>jobs = [], workers = replicate 50 Returned,
      resultsChan =
        [\<lparr>Type = ''github_pages'', Status = ''possible_takeover'',
          URL = ''https://foo.github.io'', SourcePage = ''https://site.example/''\<rparr>,
         \<lparr>Type = ''github_pages'', Status = ''possible_takeover'',
          URL = ''https://foo.github.io'', SourcePage = ''https://site.example/''\<rparr>,
         \<lparr>Type = ''repo'', Status = ''not_found'',
          URL = ''https://github.com/acme/widgets'', SourcePage = ''https://site.example/''\<rparr>,
         \<lparr>Type = ''repo'', Status = ''not_found'',
          URL = ''https://github.com/acme/widgets'', SourcePage = ''https://site.example/''\<rparr>],
      panicked = False\<rparr>"
    using interleaved_run [of 50 exampleEnv "''https://site.example/''",
        OF _ example_links(1) example_probes(1)]
    by (simp only: example_linkLoop fst_conv snd_conv) simp
  from report_independent_of_worker_count [of exampleEnv
        "[''https://site.example/'', ''https://site.example/'']"] r1 r50
  have "mset (resultsChan \<lparr>jobs = [], workers = replicate 1 Returned,
      resultsChan =
        [\<lparr>Type = ''github_pages'', Status = ''possible_takeover'',
          URL = ''https://foo.github.io'', SourcePage = ''https://site.example/''\<rparr>,
         \<lparr>Type = ''repo'', Status = ''not_found'',
          URL = ''https://github.com/acme/widgets'', SourcePage = ''https://site.example/''\<rparr>,
         \<lparr>Type = ''github_pages'', Status = ''possible_takeover'',
          URL = ''https://foo.github.io'', SourcePage = ''https://site.example/''\<rparr>,
         \<lparr>Type = ''repo'', Status = ''not_found'',
          URL = ''https://github.com/acme/widgets'', SourcePage = ''https://site.example/''\<rparr>],
      panicked = False\<rparr>)
      = mset (resultsChan \<lparr>jobs = [], workers = replicate 50 Returned,
      resultsChan =
        [\<lparr>Type = ''github_pages'', Status = ''possible_takeover'',
          URL = ''https://foo.github.io'', SourcePage = ''https://site.example/''\<rparr>,
         \<lparr>Type = ''github_pages'', Status = ''possible_takeover'',
          URL = ''https://foo.github.io'', SourcePage = ''https://site.example/''\<rparr>,
         \<lparr>Type = ''repo'', Status = ''not_found'',
          URL = ''https://github.com/acme/widgets'', SourcePage = ''https://site.example/''\<rparr>,
         \<lparr>Type = ''repo'', Status = ''not_found'',
          URL = ''https://github.com/acme/widgets'', SourcePage = ''https://site.example/''\<rparr>],
      panicked = False\<rparr>)"
    by blast
  with r1 r50 show ?thesis by simp
qed

text \<open>
  C10. The specification says that when the fetch of a site's own page fails at the
  transport level, no links are extracted and the site contributes no verdict. The code
  does so only when \<open>httpClient.Get\<close> returns an error. When the connection breaks while
  the page is in transit, the loop over the tokens ends at the \<open>ErrorToken\<close> with the links
  found so far, and they are probed. Here the page breaks off after its first link, and
  the site contributes the verdict of that link.
\<close>

theorem failed_site_fetch_counterexample:
  "client_Get exampleEnv ''https://cut.example/''
     = Some \<lparr>StatusCode = 200, Body = ''<a href=https://foo.github.io>do'', BodyError = True,
             Request_URL = \<lparr>Scheme = ''https'', Host = ''cut.example'', Path = ''/''\<rparr>\<rparr>
   \<and> extractLinks exampleEnv ''https://cut.example/'' = [''https://foo.github.io'']
   \<and> worker exampleEnv [''https://cut.example/'']
     = ([\<lparr>Type = ''github_pages'', Status = ''possible_takeover'',
          URL = ''https://foo.github.io'', SourcePage = ''https://cut.example/''\<rparr>],
        None)"
proof -
  have g: "client_Get exampleEnv ''https://cut.example/''
     = Some \<lparr>StatusCode = 200, Body = ''<a href=https://foo.github.io>do'', BodyError = True,
             Request_URL = \<lparr>Scheme = ''https'', Host = ''cut.example'', Path = ''/''\<rparr>\<rparr>"
    by (simp add: example_defs)
  have l: "extractLinks exampleEnv ''https://cut.example/'' = [''https://foo.github.io'']"
    by (simp add: extractLinks_def IsAbs_def example_defs)
  have p: "probeLink exampleEnv ''https://cut.example/'' ''https://foo.github.io'' =
     Inr [\<lparr>Type = ''github_pages'', Status = ''possible_takeover'',
           URL = ''https://foo.github.io'', SourcePage = ''https://cut.example/''\<rparr>]"
    by (simp add: probeLink_def detectService_def checkGitHub_def readBody_def example_defs)
  have "worker exampleEnv [''https://cut.example/'']
     = ([\<lparr>Type = ''github_pages'', Status = ''possible_takeover'',
          URL = ''https://foo.github.io'', SourcePage = ''https://cut.example/''\<rparr>],
        None)"
    by (simp add: l p)
  with g l show ?thesis by simp
qed

text \<open>
  C10, as the code has it. If \<open>httpClient.Get\<close> returns an error for a site's own page
  (the fetch fails before a response arrives), \<open>extractLinks\<close> returns no links and the
  loop over the links sends nothing and does not panic. The worker then goes on with the
  next queued site: what it sends for the queue is what it sends for the next site,
  fetched and scanned link by link, followed by the rest; and in the scheduler a worker
  waiting at a queue that starts with the failed site reaches the scan of the links of the
  next site, with nothing sent in between. No verdict of any status records the failed
  fetch: in every state a run can reach, with any number of workers, no result on the
  results channel names that site as its source page.
\<close>

theorem failed_site_fetch:
  assumes "client_Get env site = None"
    and "(step env)\<^sup>*\<^sup>* (start n sites) s"
    and "\<not> panicked t" and "i < length (workers t)" and "workers t ! i = Waiting"
    and "jobs t = site # next # rest"
  shows "extractLinks env site = [] \<and>
         linkLoop env site (extractLinks env site) = ([], None) \<and>
         worker env [site] = ([], None) \<and>
         worker env (site # next # rest) =
           (case linkLoop env next (extractLinks env next) of
              (rs, Some p) \<Rightarrow> (rs, Some p)
            | (rs, None) \<Rightarrow> (case worker env rest of (rs', p) \<Rightarrow> (rs @ rs', p))) \<and>
         (step env)\<^sup>*\<^sup>* t
           (t\<lparr>jobs := rest,
              workers := (workers t)[i := Scanning next (extractLinks env next)]\<rparr>) \<and>
         (\<forall>r\<in>set (resultsChan s). SourcePage r \<noteq> site)"
proof -
  from assms(1) have e: "extractLinks env site = []" by (simp add: extractLinks_def)
  from e have ll: "linkLoop env site (extractLinks env site) = ([], None)" by simp
  from e have w1: "worker env [site] = ([], None)" by simp
  from e have w2: "worker env (site # next # rest) =
           (case linkLoop env next (extractLinks env next) of
              (rs, Some p) \<Rightarrow> (rs, Some p)
            | (rs, None) \<Rightarrow> (case worker env rest of (rs', p) \<Rightarrow> (rs @ rs', p)))"
    by (simp split: prod.splits option.splits)
  define t1 where "t1 = t\<lparr>jobs := next # rest, workers := (workers t)[i := Scanning site []]\<rparr>"
  define t2 where "t2 = t\<lparr>jobs := next # rest, workers := (workers t)[i := Waiting]\<rparr>"
  define t3 where "t3 = t\<lparr>jobs := rest,
                         workers := (workers t)[i := Scanning next (extractLinks env next)]\<rparr>"
  have "step env t (t\<lparr>jobs := next # rest,
          workers := (workers t)[i := Scanning site (extractLinks env site)]\<rparr>)"
    using assms(3-6) by (intro step.receive) auto
  then have s1: "step env t t1" by (simp add: t1_def e)
  have "step env t1 (t1\<lparr>workers := (workers t1)[i := Waiting]\<rparr>)"
    using assms(3,4) by (intro step.next_site [where site = site]) (simp_all add: t1_def)
  then have s2: "step env t1 t2" by (simp add: t1_def t2_def)
  have "step env t2 (t2\<lparr>jobs := rest,
          workers := (workers t2)[i := Scanning next (extractLinks env next)]\<rparr>)"
    using assms(3,4) by (intro step.receive) (simp_all add: t2_def)
  then have s3: "step env t2 t3" by (simp add: t2_def t3_def)
  from s1 s2 s3 have run: "(step env)\<^sup>*\<^sup>* t t3" by auto
  from steps_sourced [OF assms(2)] e
  have src: "\<forall>r\<in>set (resultsChan s). SourcePage r \<noteq> site" by auto
  from e ll w1 w2 run src show ?thesis unfolding t3_def by blast
qed

theorem failed_site_fetch_witness:
  "client_Get exampleEnv ''https://down.example/'' = None
   \<and> (step exampleEnv)\<^sup>*\<^sup>* (start 1 [''https://down.example/'', ''https://site.example/''])
        \<lparr>jobs = [], workers = replicate 1 Returned,
         resultsChan =
           [\<lparr>Type = ''github_pages'', Status = ''possible_takeover'',
             URL = ''https://foo.github.io'', SourcePage = ''https://site.example/''\<rparr>,
            \<lparr>Type = ''repo'', Status = ''not_found'',
             URL = ''https://github.com/acme/widgets'', SourcePage = ''https://site.example/''\<rparr>],
         panicked = False\<rparr>
   \<and> \<not> panicked (start 1 [''https://down.example/'', ''https://site.example/''])
   \<and> workers (start 1 [''https://down.example/'', ''https://site.example/'']) ! 0 = Waiting
   \<and> jobs (start 1 [''https://down.example/'', ''https://site.example/''])
       = [''https://down.example/'', ''https://site.example/'']
   \<and> extractLinks exampleEnv ''https://down.example/'' = []
   \<and> worker exampleEnv [''https://down.example/'', ''https://site.example/'']
       = ([\<lparr>Type = ''github_pages'', Status = ''possible_takeover'',
             URL = ''https://foo.github.io'', SourcePage = ''https://site.example/''\<rparr>,
           \<lparr>Type = ''repo'', Status = ''not_found'',
             URL = ''https://github.com/acme/widgets'', SourcePage = ''https://site.example/''\<rparr>],
          None)
   \<and> (step exampleEnv)\<^sup>*\<^sup>* (start 1 [''https://down.example/'', ''https://site.example/''])
        \<lparr>jobs = [],
         workers = [Scanning ''https://site.example/''
                      [''https://foo.github.io'', ''https://site.example/about'',
                       ''https://github.com/acme/widgets'']],
         resultsChan = [], panicked = False\<rparr>"
proof -
  let ?t = "start 1 [''https://down.example/'', ''https://site.example/'']"
  have g: "client_Get exampleEnv ''https://down.example/'' = None"
    by (simp add: example_defs)
  have "run exampleEnv 1 [''https://down.example/'', ''https://site.example/'']
        \<lparr>jobs = [], workers = replicate 1 Returned,
         resultsChan =
           [\<lparr>Type = ''github_pages'', Status = ''possible_takeover'',
             URL = ''https://foo.github.io'', SourcePage = ''https://site.example/''\<rparr>,
            \<lparr>Type = ''repo'', Status = ''not_found'',
             URL = ''https://github.com/acme/widgets'', SourcePage = ''https://site.example/''\<rparr>],
         panicked = False\<rparr>"
    using sequential_run [of 1 exampleEnv "[''https://down.example/'', ''https://site.example/'']"]
    by (simp only: example_worker fst_conv snd_conv)
  then have c: "(step exampleEnv)\<^sup>*\<^sup>* ?t
        \<lparr>jobs = [], workers = replicate 1 Returned,
         resultsChan =
           [\<lparr>Type = ''github_pages'', Status = ''possible_takeover'',
             URL = ''https://foo.github.io'', SourcePage = ''https://site.example/''\<rparr>,
            \<lparr>Type = ''repo'', Status = ''not_found'',
             URL = ''https://github.com/acme/widgets'', SourcePage = ''https://site.example/''\<rparr>],
         panicked = False\<rparr>"
    by (simp only: run_def)
  have t1: "\<not> panicked ?t" and t2: "0 < length (workers ?t)"
    and t3: "workers ?t ! 0 = Waiting"
    and t4: "jobs ?t = ''https://down.example/'' # ''https://site.example/'' # []"
    by (simp_all add: start_def)
  from failed_site_fetch [OF g c t1 t2 t3 t4]
  have "(step exampleEnv)\<^sup>*\<^sup>* ?t
          (?t\<lparr>jobs := [],
              workers := (workers ?t)[0 := Scanning ''https://site.example/''
                 (extractLinks exampleEnv ''https://site.example/'')]\<rparr>)"
    and e: "extractLinks exampleEnv ''https://down.example/'' = []"
    by blast+
  then have r: "(step exampleEnv)\<^sup>*\<^sup>* ?t
        \<lparr>jobs = [],
         workers = [Scanning ''https://site.example/''
                      [''https://foo.github.io'', ''https://site.example/about'',
                       ''https://github.com/acme/widgets'']],
         resultsChan = [], panicked = False\<rparr>"
    by (simp only: example_links) (simp add: start_def)
  from g c t1 t3 t4 e r example_worker show ?thesis by simp
qed

end
